theory Spec2Isabelle
  imports Main
begin

section \<open>Outcomes of a call\<close>

text \<open>
  A call either returns, or leaves by an exception, or stops the program.  The state
  after an exception is kept, since the exception guarantees are statements about it.
  \<open>assertion_failed\<close> is a failed \<open>assert\<close> of the source (the build with assertions
  enabled is modelled); \<open>undefined_behaviour\<close> is an access to a slot outside its block,
  a read or destruction of a slot that holds no object, or an inverted iterator range.
\<close>

datatype exn = bad_alloc | element_exception

datatype fatal = assertion_failed | undefined_behaviour

datatype ('s, 'r) outcome = Returns 's 'r | Throws exn 's | Aborts fatal

section \<open>The element type \<open>T\<close> and the allocator\<close>

text \<open>
  The template argument \<open>T\<close> is a parameter of the model: the two traits \<open>SafeMove\<close>
  tests, the trait in the exception specification of \<open>Erase\<close>, and for every value of
  the type whether copying, moving or assigning from it throws.  A copy has the value of
  its source; a move gives the destination the value of the source and leaves the source
  in state \<open>moved_from\<close>; a constructor or assignment that throws leaves its source and
  its destination as they were.  \<open>value_ctor\<close> is the outcome of \<open>T()\<close> (\<open>None\<close>: it
  throws).  Destructors do not throw.  \<open>operator_new_throws n\<close> tells whether the
  allocation of \<open>n\<close> slots fails.

  \<open>size_t\<close> is modelled by \<open>nat\<close>.  The size and the capacity of a vector whose block
  exists are bounded by that block, \<open>capacity * sizeof(T)\<close> bytes of one allocation, hence
  below \<open>2^63\<close>, where neither \<open>size_ * 2\<close> nor \<open>++size_\<close> wraps around.  The
  subtractions that could wrap are written out.  A capacity the caller asks for, in
  \<open>Reserve\<close>, \<open>Resize\<close> and \<open>Vector(size)\<close>, has no such bound: see \<open>Allocate\<close>.
\<close>

record 'a element_type =
  is_nothrow_move_constructible_v :: bool
  is_copy_constructible_v :: bool
  is_nothrow_move_assignable_v :: bool
  value_ctor :: "'a option"
  copy_ctor_throws :: "'a \<Rightarrow> bool"
  move_ctor_throws :: "'a \<Rightarrow> bool"
  copy_assign_throws :: "'a \<Rightarrow> bool"
  move_assign_throws :: "'a \<Rightarrow> bool"
  moved_from :: "'a \<Rightarrow> 'a"
  operator_new_throws :: "nat \<Rightarrow> bool"

text \<open>A move constructor or move assignment declared \<open>noexcept\<close> does not throw.\<close>

definition move_throws :: "'a element_type \<Rightarrow> 'a \<Rightarrow> bool" where
  "move_throws T x \<longleftrightarrow> \<not> is_nothrow_move_constructible_v T \<and> move_ctor_throws T x"

definition assign_move_throws :: "'a element_type \<Rightarrow> 'a \<Rightarrow> bool" where
  "assign_move_throws T x \<longleftrightarrow> \<not> is_nothrow_move_assignable_v T \<and> move_assign_throws T x"

text \<open>\<open>T(value)\<close> and \<open>T(std::move(value))\<close> as constructor calls: the new value, or \<open>None\<close>.\<close>

definition copy_construct :: "'a element_type \<Rightarrow> 'a \<Rightarrow> 'a option" where
  "copy_construct T x = (if copy_ctor_throws T x then None else Some x)"

definition move_construct :: "'a element_type \<Rightarrow> 'a \<Rightarrow> 'a option" where
  "move_construct T x = (if move_throws T x then None else Some x)"

section \<open>Storage and the standard algorithms on it\<close>

text \<open>
  A block of raw memory is the list of its slots: \<open>None\<close> is a slot without an object
  (never constructed, or destroyed), \<open>Some x\<close> a live object of value \<open>x\<close>.  A pointer
  into a block is the index of its slot.
\<close>

type_synonym 'a slots = "'a option list"

definition live :: "'a slots \<Rightarrow> nat \<Rightarrow> bool" where
  "live buf i \<longleftrightarrow> i < length buf \<and> buf ! i \<noteq> None"

text \<open>\<open>std::destroy_n(first, n)\<close>; destructors do not throw.  \<open>None\<close>: undefined behaviour.\<close>

fun destroy_n :: "'a slots \<Rightarrow> nat \<Rightarrow> nat \<Rightarrow> 'a slots option" where
  "destroy_n buf first 0 = Some buf"
| "destroy_n buf first (Suc n) =
     (if live buf first then destroy_n (buf[first := None]) (Suc first) n else None)"

text \<open>
  \<open>std::uninitialized_value_construct_n(first, n)\<close>: constructs at \<open>current\<close>; when a
  constructor throws, the objects constructed so far, \<open>[first, current)\<close>, are destroyed
  and the exception is thrown on.
\<close>

fun uninitialized_value_construct_loop ::
  "'a element_type \<Rightarrow> 'a slots \<Rightarrow> nat \<Rightarrow> nat \<Rightarrow> nat \<Rightarrow> ('a slots, unit) outcome" where
  "uninitialized_value_construct_loop T buf first current 0 = Returns buf ()"
| "uninitialized_value_construct_loop T buf first current (Suc n) =
     (if \<not> current < length buf then Aborts undefined_behaviour
      else case value_ctor T of
        None \<Rightarrow>
          (case destroy_n buf first (current - first) of
             None \<Rightarrow> Aborts undefined_behaviour
           | Some buf' \<Rightarrow> Throws element_exception buf')
      | Some x \<Rightarrow>
          uninitialized_value_construct_loop T (buf[current := Some x]) first (Suc current) n)"

definition uninitialized_value_construct_n ::
  "'a element_type \<Rightarrow> 'a slots \<Rightarrow> nat \<Rightarrow> nat \<Rightarrow> ('a slots, unit) outcome" where
  "uninitialized_value_construct_n T buf first n =
     uninitialized_value_construct_loop T buf first first n"

text \<open>
  \<open>std::uninitialized_copy_n(first, n, d_first)\<close> from block \<open>src\<close> into another block
  \<open>dst\<close>, with the same clean-up of \<open>[d_first, current)\<close> when a copy throws.
\<close>

fun uninitialized_copy_loop ::
  "'a element_type \<Rightarrow> 'a slots \<Rightarrow> nat \<Rightarrow> nat \<Rightarrow> 'a slots \<Rightarrow> nat \<Rightarrow> nat
     \<Rightarrow> ('a slots, unit) outcome" where
  "uninitialized_copy_loop T src first 0 dst d_first current = Returns dst ()"
| "uninitialized_copy_loop T src first (Suc n) dst d_first current =
     (if \<not> live src first \<or> \<not> current < length dst then Aborts undefined_behaviour
      else if copy_ctor_throws T (the (src ! first)) then
        (case destroy_n dst d_first (current - d_first) of
           None \<Rightarrow> Aborts undefined_behaviour
         | Some dst' \<Rightarrow> Throws element_exception dst')
      else uninitialized_copy_loop T src (Suc first) n
             (dst[current := src ! first]) d_first (Suc current))"

definition uninitialized_copy_n ::
  "'a element_type \<Rightarrow> 'a slots \<Rightarrow> nat \<Rightarrow> nat \<Rightarrow> 'a slots \<Rightarrow> nat \<Rightarrow> ('a slots, unit) outcome" where
  "uninitialized_copy_n T src first n dst d_first =
     uninitialized_copy_loop T src first n dst d_first d_first"

text \<open>
  \<open>std::uninitialized_move_n(first, n, d_first)\<close> between two blocks.  The state is the
  pair (source block, destination block): a source that was moved from stays so when a
  later move throws.
\<close>

fun uninitialized_move_loop ::
  "'a element_type \<Rightarrow> 'a slots \<Rightarrow> nat \<Rightarrow> nat \<Rightarrow> 'a slots \<Rightarrow> nat \<Rightarrow> nat
     \<Rightarrow> ('a slots \<times> 'a slots, unit) outcome" where
  "uninitialized_move_loop T src first 0 dst d_first current = Returns (src, dst) ()"
| "uninitialized_move_loop T src first (Suc n) dst d_first current =
     (if \<not> live src first \<or> \<not> current < length dst then Aborts undefined_behaviour
      else if move_throws T (the (src ! first)) then
        (case destroy_n dst d_first (current - d_first) of
           None \<Rightarrow> Aborts undefined_behaviour
         | Some dst' \<Rightarrow> Throws element_exception (src, dst'))
      else uninitialized_move_loop T
             (src[first := Some (moved_from T (the (src ! first)))]) (Suc first) n
             (dst[current := src ! first]) d_first (Suc current))"

definition uninitialized_move_n ::
  "'a element_type \<Rightarrow> 'a slots \<Rightarrow> nat \<Rightarrow> nat \<Rightarrow> 'a slots \<Rightarrow> nat
     \<Rightarrow> ('a slots \<times> 'a slots, unit) outcome" where
  "uninitialized_move_n T src first n dst d_first =
     uninitialized_move_loop T src first n dst d_first d_first"

text \<open>
  \<open>std::copy_n(first, n, d_first)\<close>: copy assignment onto live objects of another block;
  returns the end of the destination range.  Nothing is undone when an assignment throws.
\<close>

fun copy_n ::
  "'a element_type \<Rightarrow> 'a slots \<Rightarrow> nat \<Rightarrow> nat \<Rightarrow> 'a slots \<Rightarrow> nat \<Rightarrow> ('a slots, nat) outcome" where
  "copy_n T src first 0 dst d_first = Returns dst d_first"
| "copy_n T src first (Suc n) dst d_first =
     (if \<not> live src first \<or> \<not> live dst d_first then Aborts undefined_behaviour
      else if copy_assign_throws T (the (src ! first)) then Throws element_exception dst
      else copy_n T src (Suc first) n (dst[d_first := src ! first]) (Suc d_first))"

text \<open>
  \<open>std::move(first, last, d_first)\<close> and \<open>std::move_backward(first, last, d_last)\<close> inside
  one block: move assignment, front to back and back to front.
\<close>

fun move_loop ::
  "'a element_type \<Rightarrow> 'a slots \<Rightarrow> nat \<Rightarrow> nat \<Rightarrow> nat \<Rightarrow> ('a slots, unit) outcome" where
  "move_loop T buf first 0 d_first = Returns buf ()"
| "move_loop T buf first (Suc n) d_first =
     (if \<not> live buf first \<or> \<not> live buf d_first then Aborts undefined_behaviour
      else if assign_move_throws T (the (buf ! first)) then Throws element_exception buf
      else move_loop T
             (buf[d_first := buf ! first, first := Some (moved_from T (the (buf ! first)))])
             (Suc first) n (Suc d_first))"

definition std_move ::
  "'a element_type \<Rightarrow> 'a slots \<Rightarrow> nat \<Rightarrow> nat \<Rightarrow> nat \<Rightarrow> ('a slots, unit) outcome" where
  "std_move T buf first last' d_first =
     (if last' < first then Aborts undefined_behaviour
      else move_loop T buf first (last' - first) d_first)"

fun move_backward_loop ::
  "'a element_type \<Rightarrow> 'a slots \<Rightarrow> nat \<Rightarrow> nat \<Rightarrow> nat \<Rightarrow> ('a slots, unit) outcome" where
  "move_backward_loop T buf last' 0 d_last = Returns buf ()"
| "move_backward_loop T buf last' (Suc n) d_last =
     (if last' = 0 \<or> d_last = 0 then Aborts undefined_behaviour
      else if \<not> live buf (last' - 1) \<or> \<not> live buf (d_last - 1) then Aborts undefined_behaviour
      else if assign_move_throws T (the (buf ! (last' - 1))) then Throws element_exception buf
      else move_backward_loop T
             (buf[d_last - 1 := buf ! (last' - 1),
                  last' - 1 := Some (moved_from T (the (buf ! (last' - 1))))])
             (last' - 1) n (d_last - 1))"

definition std_move_backward ::
  "'a element_type \<Rightarrow> 'a slots \<Rightarrow> nat \<Rightarrow> nat \<Rightarrow> nat \<Rightarrow> ('a slots, unit) outcome" where
  "std_move_backward T buf first last' d_last =
     (if last' < first then Aborts undefined_behaviour
      else move_backward_loop T buf last' (last' - first) d_last)"

section \<open>RawMemory\<close>

text \<open>
  The fields \<open>buffer_\<close> and \<open>capacity_\<close> (an identifier cannot end in an underscore here,
  hence the suffix).  \<open>buffer_\<close> owns its block, so the field holds the block's slots;
  \<open>nullptr\<close> is the empty list.
\<close>

record 'a RawMemory =
  buffer_m :: "'a slots"
  capacity_m :: nat

definition RawMemory_default :: "'a RawMemory" where
  "RawMemory_default = \<lparr>buffer_m = [], capacity_m = 0\<rparr>"

text \<open>
  \<open>Allocate\<close>: \<open>None\<close> is \<open>std::bad_alloc\<close>; no allocator call for \<open>n = 0\<close>.  The block has
  \<open>n\<close> slots.  This is the source for every \<open>n\<close> with \<open>n * sizeof(T) \<le> SIZE_MAX\<close>.  For a
  larger \<open>n\<close> the product wraps around in the source, \<open>operator new\<close> is asked for fewer
  bytes, and a block of fewer than \<open>n\<close> slots is recorded with capacity \<open>n\<close>; such a
  request is outside the model, which shares with the source only the capacity recorded.
\<close>

definition Allocate :: "'a element_type \<Rightarrow> nat \<Rightarrow> 'a slots option" where
  "Allocate T n =
     (if n \<noteq> 0 then (if operator_new_throws T n then None else Some (replicate n None))
      else Some [])"

definition RawMemory_ctor :: "'a element_type \<Rightarrow> nat \<Rightarrow> 'a RawMemory option" where
  "RawMemory_ctor T capacity =
     (case Allocate T capacity of
        None \<Rightarrow> None
      | Some buf \<Rightarrow> Some \<lparr>buffer_m = buf, capacity_m = capacity\<rparr>)"

text \<open>The assertions of \<open>operator+\<close> and \<open>operator[]\<close>.\<close>

definition plus_ok :: "'a RawMemory \<Rightarrow> nat \<Rightarrow> bool" where
  "plus_ok m offset \<longleftrightarrow> offset \<le> capacity_m m"

definition index_ok :: "'a RawMemory \<Rightarrow> nat \<Rightarrow> bool" where
  "index_ok m index \<longleftrightarrow> index < capacity_m m"

definition RawMemory_Swap :: "'a RawMemory \<Rightarrow> 'a RawMemory \<Rightarrow> 'a RawMemory \<times> 'a RawMemory" where
  "RawMemory_Swap m other =
     (\<lparr>buffer_m = buffer_m other, capacity_m = capacity_m other\<rparr>,
      \<lparr>buffer_m = buffer_m m, capacity_m = capacity_m m\<rparr>)"

text \<open>
  \<open>Init\<close>, the body of the move constructor and of move assignment: the block owned so
  far is released as it is, and \<open>other\<close> is left with \<open>nullptr\<close> and capacity 0.
\<close>

definition RawMemory_Init :: "'a RawMemory \<Rightarrow> 'a RawMemory \<Rightarrow> 'a RawMemory \<times> 'a RawMemory" where
  "RawMemory_Init m other =
     (\<lparr>buffer_m = buffer_m other, capacity_m = capacity_m other\<rparr>,
      \<lparr>buffer_m = [], capacity_m = 0\<rparr>)"

section \<open>Vector\<close>

record 'a Vector =
  data_m :: "'a RawMemory"
  size_m :: nat

text \<open>The vector after the slots of its block have become \<open>buf\<close>.\<close>

definition with_buffer :: "'a Vector \<Rightarrow> 'a slots \<Rightarrow> 'a Vector" where
  "with_buffer v buf = v\<lparr>data_m := (data_m v)\<lparr>buffer_m := buf\<rparr>\<rparr>"

text \<open>
  A local \<open>RawMemory new_data\<close> goes out of scope, on return or while an exception
  unwinds: its destructor releases the block and runs no destructor of \<open>T\<close>.  The state
  of a function body with such a local is the pair (vector, local block).
\<close>

fun leave_scope :: "('a Vector \<times> 'a RawMemory, 'r) outcome \<Rightarrow> ('a Vector, 'r) outcome" where
  "leave_scope (Returns (v, new_data) r) = Returns v r"
| "leave_scope (Throws e (v, new_data)) = Throws e v"
| "leave_scope (Aborts f) = Aborts f"

definition Vector_default :: "'a Vector" where
  "Vector_default = \<lparr>data_m = RawMemory_default, size_m = 0\<rparr>"

definition Size :: "'a Vector \<Rightarrow> nat" where
  "Size v = size_m v"

definition Capacity :: "'a Vector \<Rightarrow> nat" where
  "Capacity v = capacity_m (data_m v)"

text \<open>\<open>Vector(size_t size)\<close> and \<open>Vector(const Vector &other)\<close>: the result is the new object.\<close>

definition Vector_sized :: "'a element_type \<Rightarrow> nat \<Rightarrow> (unit, 'a Vector) outcome" where
  "Vector_sized T sz =
     (case RawMemory_ctor T sz of
        None \<Rightarrow> Throws bad_alloc ()
      | Some m \<Rightarrow>
          (case uninitialized_value_construct_n T (buffer_m m) 0 sz of
             Aborts f \<Rightarrow> Aborts f
           | Throws e buf \<Rightarrow> Throws e ()
           | Returns buf u \<Rightarrow> Returns () \<lparr>data_m = m\<lparr>buffer_m := buf\<rparr>, size_m = sz\<rparr>))"

definition Vector_copy :: "'a element_type \<Rightarrow> 'a Vector \<Rightarrow> (unit, 'a Vector) outcome" where
  "Vector_copy T other =
     (case RawMemory_ctor T (size_m other) of
        None \<Rightarrow> Throws bad_alloc ()
      | Some m \<Rightarrow>
          (case uninitialized_copy_n T (buffer_m (data_m other)) 0 (size_m other) (buffer_m m) 0 of
             Aborts f \<Rightarrow> Aborts f
           | Throws e buf \<Rightarrow> Throws e ()
           | Returns buf u \<Rightarrow> Returns () \<lparr>data_m = m\<lparr>buffer_m := buf\<rparr>, size_m = size_m other\<rparr>))"

text \<open>\<open>Vector(Vector &&other)\<close>: the new object and what is left of \<open>other\<close>.\<close>

definition Vector_move :: "'a Vector \<Rightarrow> 'a Vector \<times> 'a Vector" where
  "Vector_move other =
     (let (d, od) = RawMemory_Init RawMemory_default (data_m other)
      in (\<lparr>data_m = d, size_m = size_m other\<rparr>, \<lparr>data_m = od, size_m = 0\<rparr>))"

text \<open>\<open>~Vector\<close>: destroys the \<open>size_\<close> elements; \<open>None\<close> is undefined behaviour.\<close>

definition Vector_dtor :: "'a Vector \<Rightarrow> 'a slots option" where
  "Vector_dtor v = destroy_n (buffer_m (data_m v)) 0 (size_m v)"

text \<open>
  \<open>Swap\<close>, on two vector values, and on two objects of a store of vector objects (an
  address may be passed twice).
\<close>

definition Swap_values :: "'a Vector \<Rightarrow> 'a Vector \<Rightarrow> 'a Vector \<times> 'a Vector" where
  "Swap_values v other =
     (let (d, od) = RawMemory_Swap (data_m v) (data_m other)
      in (\<lparr>data_m = d, size_m = size_m other\<rparr>, \<lparr>data_m = od, size_m = size_m v\<rparr>))"

type_synonym 'a objects = "nat \<Rightarrow> 'a Vector"

definition Swap :: "'a objects \<Rightarrow> nat \<Rightarrow> nat \<Rightarrow> 'a objects" where
  "Swap st this other =
     (let (v', other') = Swap_values (st this) (st other)
      in (st(other := other'))(this := v'))"

text \<open>\<open>SafeMove(from, size, to)\<close> between two blocks; the state is (source, destination).\<close>

definition SafeMove ::
  "'a element_type \<Rightarrow> 'a slots \<Rightarrow> nat \<Rightarrow> nat \<Rightarrow> 'a slots \<Rightarrow> nat
     \<Rightarrow> ('a slots \<times> 'a slots, unit) outcome" where
  "SafeMove T src first n dst d_first =
     (if is_nothrow_move_constructible_v T \<or> \<not> is_copy_constructible_v T then
        (case uninitialized_move_n T src first n dst d_first of
           Aborts f \<Rightarrow> Aborts f
         | Throws e sd \<Rightarrow> Throws e sd
         | Returns (src', dst') u \<Rightarrow>
             (case destroy_n src' first n of
                None \<Rightarrow> Aborts undefined_behaviour
              | Some src'' \<Rightarrow> Returns (src'', dst') ()))
      else
        (case uninitialized_copy_n T src first n dst d_first of
           Aborts f \<Rightarrow> Aborts f
         | Throws e dst' \<Rightarrow> Throws e (src, dst')
         | Returns dst' u \<Rightarrow>
             (case destroy_n src first n of
                None \<Rightarrow> Aborts undefined_behaviour
              | Some src' \<Rightarrow> Returns (src', dst') ())))"

text \<open>
  Copy assignment: the body of \<open>if (this != &rhs)\<close> on the two distinct objects, then the
  operator on the store.  \<open>rhs\<close> is \<open>const\<close>.
\<close>

definition copy_assign_body ::
  "'a element_type \<Rightarrow> 'a Vector \<Rightarrow> 'a Vector \<Rightarrow> ('a Vector, unit) outcome" where
  "copy_assign_body T v rhs =
     (if size_m rhs > capacity_m (data_m v) then
        (case Vector_copy T rhs of
           Aborts f \<Rightarrow> Aborts f
         | Throws e u \<Rightarrow> Throws e v
         | Returns u rhs_copy \<Rightarrow>
             (let (v', rhs_copy') = Swap_values v rhs_copy
              in case Vector_dtor rhs_copy' of
                   None \<Rightarrow> Aborts undefined_behaviour
                 | Some released \<Rightarrow> Returns v' ()))
      else
        (let copy_elem = (if size_m rhs < size_m v then size_m rhs else size_m v)
         in case copy_n T (buffer_m (data_m rhs)) 0 copy_elem (buffer_m (data_m v)) 0 of
              Aborts f \<Rightarrow> Aborts f
            | Throws e buf \<Rightarrow> Throws e (with_buffer v buf)
            | Returns buf end_it \<Rightarrow>
                if size_m rhs < size_m v then
                  (case destroy_n buf end_it (size_m v - size_m rhs) of
                     None \<Rightarrow> Aborts undefined_behaviour
                   | Some buf' \<Rightarrow> Returns ((with_buffer v buf')\<lparr>size_m := size_m rhs\<rparr>) ())
                else
                  (case uninitialized_copy_n T (buffer_m (data_m rhs)) (0 + size_m v)
                          (size_m rhs - size_m v) buf end_it of
                     Aborts f \<Rightarrow> Aborts f
                   | Throws e buf' \<Rightarrow> Throws e (with_buffer v buf')
                   | Returns buf' u \<Rightarrow>
                       Returns ((with_buffer v buf')\<lparr>size_m := size_m rhs\<rparr>) ())))"

definition copy_assign ::
  "'a element_type \<Rightarrow> 'a objects \<Rightarrow> nat \<Rightarrow> nat \<Rightarrow> ('a objects, unit) outcome" where
  "copy_assign T st this rhs =
     (if this \<noteq> rhs then
        (case copy_assign_body T (st this) (st rhs) of
           Aborts f \<Rightarrow> Aborts f
         | Throws e v' \<Rightarrow> Throws e (st(this := v'))
         | Returns v' u \<Rightarrow> Returns (st(this := v')) ())
      else Returns st ())"

text \<open>Move assignment (\<open>noexcept\<close>, no assertion on its path).\<close>

definition move_assign :: "'a objects \<Rightarrow> nat \<Rightarrow> nat \<Rightarrow> 'a objects" where
  "move_assign st this rhs =
     (if this \<noteq> rhs then
        (let (d, rd) = RawMemory_Init (data_m (st this)) (data_m (st rhs))
         in (st(rhs := \<lparr>data_m = rd, size_m = 0\<rparr>))
              (this := \<lparr>data_m = d, size_m = size_m (st rhs)\<rparr>))
      else st)"

definition Reserve :: "'a element_type \<Rightarrow> 'a Vector \<Rightarrow> nat \<Rightarrow> ('a Vector, unit) outcome" where
  "Reserve T v new_capacity =
     (if new_capacity \<le> capacity_m (data_m v) then Returns v ()
      else
        (case RawMemory_ctor T new_capacity of
           None \<Rightarrow> Throws bad_alloc v
         | Some new_data \<Rightarrow>
             leave_scope
               (case SafeMove T (buffer_m (data_m v)) 0 (size_m v) (buffer_m new_data) 0 of
                  Aborts f \<Rightarrow> Aborts f
                | Throws e (src', dst') \<Rightarrow>
                    Throws e (with_buffer v src', new_data\<lparr>buffer_m := dst'\<rparr>)
                | Returns (src', dst') u \<Rightarrow>
                    (let (d, nd) = RawMemory_Swap ((data_m v)\<lparr>buffer_m := src'\<rparr>)
                                     (new_data\<lparr>buffer_m := dst'\<rparr>)
                     in Returns (v\<lparr>data_m := d\<rparr>, nd) ()))))"

definition Resize :: "'a element_type \<Rightarrow> 'a Vector \<Rightarrow> nat \<Rightarrow> ('a Vector, unit) outcome" where
  "Resize T v new_size =
     (if new_size < size_m v then
        (case destroy_n (buffer_m (data_m v)) (0 + new_size) (size_m v - new_size) of
           None \<Rightarrow> Aborts undefined_behaviour
         | Some buf \<Rightarrow> Returns ((with_buffer v buf)\<lparr>size_m := new_size\<rparr>) ())
      else if new_size > size_m v then
        (case Reserve T v new_size of
           Aborts f \<Rightarrow> Aborts f
         | Throws e v' \<Rightarrow> Throws e v'
         | Returns v' u \<Rightarrow>
             (case uninitialized_value_construct_n T (buffer_m (data_m v')) (0 + size_m v')
                     (new_size - size_m v') of
                Aborts f \<Rightarrow> Aborts f
              | Throws e buf \<Rightarrow> Throws e (with_buffer v' buf)
              | Returns buf u' \<Rightarrow> Returns ((with_buffer v' buf)\<lparr>size_m := new_size\<rparr>) ()))
      else Returns (v\<lparr>size_m := new_size\<rparr>) ())"

definition destroy_at :: "'a slots \<Rightarrow> nat \<Rightarrow> 'a slots option" where
  "destroy_at buf p = (if live buf p then Some (buf[p := None]) else None)"

definition PopBack :: "'a Vector \<Rightarrow> ('a Vector, unit) outcome" where
  "PopBack v =
     (if \<not> size_m v > 0 then Aborts assertion_failed
      else if \<not> plus_ok (data_m v) (size_m v - 1) then Aborts assertion_failed
      else
        (case destroy_at (buffer_m (data_m v)) (size_m v - 1) of
           None \<Rightarrow> Aborts undefined_behaviour
         | Some buf \<Rightarrow> Returns ((with_buffer v buf)\<lparr>size_m := size_m v - 1\<rparr>) ()))"

text \<open>
  \<open>EmplaceBack\<close>.  \<open>args\<close> is the outcome of \<open>T(std::forward<Args>(args)...)\<close>: the value
  constructed, or \<open>None\<close> when the constructor throws.  The reference returned is the
  index of its element.  The first definition is the branch \<open>size_ == Capacity()\<close> once
  \<open>new_data\<close> is allocated.
\<close>

definition EmplaceBack_realloc ::
  "'a element_type \<Rightarrow> 'a Vector \<Rightarrow> 'a RawMemory \<Rightarrow> 'a option
     \<Rightarrow> ('a Vector \<times> 'a RawMemory, nat) outcome" where
  "EmplaceBack_realloc T v new_data args =
     (if \<not> plus_ok new_data (size_m v) then Aborts assertion_failed
      else case args of
        None \<Rightarrow> Throws element_exception (v, new_data)
      | Some x \<Rightarrow>
          if \<not> size_m v < length (buffer_m new_data) then Aborts undefined_behaviour
          else
            (case SafeMove T (buffer_m (data_m v)) 0 (size_m v)
                    ((buffer_m new_data)[size_m v := Some x]) 0 of
               Aborts f \<Rightarrow> Aborts f
             | Throws e (src', dst') \<Rightarrow>
                 Throws e (with_buffer v src', new_data\<lparr>buffer_m := dst'\<rparr>)
             | Returns (src', dst') u \<Rightarrow>
                 (let (d, nd) = RawMemory_Swap ((data_m v)\<lparr>buffer_m := src'\<rparr>)
                                  (new_data\<lparr>buffer_m := dst'\<rparr>)
                  in if \<not> index_ok d (size_m v + 1 - 1) then Aborts assertion_failed
                     else Returns (\<lparr>data_m = d, size_m = size_m v + 1\<rparr>, nd)
                            (size_m v + 1 - 1))))"

definition EmplaceBack ::
  "'a element_type \<Rightarrow> 'a Vector \<Rightarrow> 'a option \<Rightarrow> ('a Vector, nat) outcome" where
  "EmplaceBack T v args =
     (if size_m v = Capacity v then
        (case RawMemory_ctor T (if size_m v = 0 then 1 else size_m v * 2) of
           None \<Rightarrow> Throws bad_alloc v
         | Some new_data \<Rightarrow> leave_scope (EmplaceBack_realloc T v new_data args))
      else if \<not> plus_ok (data_m v) (size_m v) then Aborts assertion_failed
      else case args of
        None \<Rightarrow> Throws element_exception v
      | Some x \<Rightarrow>
          if \<not> size_m v < length (buffer_m (data_m v)) then Aborts undefined_behaviour
          else if \<not> index_ok (data_m v) (size_m v + 1 - 1) then Aborts assertion_failed
          else Returns
                 ((with_buffer v ((buffer_m (data_m v))[size_m v := Some x]))
                    \<lparr>size_m := size_m v + 1\<rparr>)
                 (size_m v + 1 - 1))"

definition PushBack_copy ::
  "'a element_type \<Rightarrow> 'a Vector \<Rightarrow> 'a \<Rightarrow> ('a Vector, nat) outcome" where
  "PushBack_copy T v val = EmplaceBack T v (copy_construct T val)"

definition PushBack_move ::
  "'a element_type \<Rightarrow> 'a Vector \<Rightarrow> 'a \<Rightarrow> ('a Vector, nat) outcome" where
  "PushBack_move T v val = EmplaceBack T v (move_construct T val)"

text \<open>
  \<open>EmplaceWithReallocate\<close>; an iterator is the index of its element, so \<open>pos - begin()\<close>
  is \<open>index\<close>.  The first definition is the body once \<open>new_data\<close> is allocated, with the
  two handlers.  \<open>size_ - index\<close> would wrap around for \<open>index > size_\<close>.
\<close>

definition EmplaceWithReallocate_body ::
  "'a element_type \<Rightarrow> 'a Vector \<Rightarrow> 'a RawMemory \<Rightarrow> nat \<Rightarrow> 'a option
     \<Rightarrow> ('a Vector \<times> 'a RawMemory, nat) outcome" where
  "EmplaceWithReallocate_body T v new_data index args =
     (if \<not> plus_ok new_data index then Aborts assertion_failed
      else case args of
        None \<Rightarrow> Throws element_exception (v, new_data)
      | Some x \<Rightarrow>
          if \<not> index < length (buffer_m new_data) then Aborts undefined_behaviour
          else
            (case SafeMove T (buffer_m (data_m v)) 0 index
                    ((buffer_m new_data)[index := Some x]) 0 of
               Aborts f \<Rightarrow> Aborts f
             | Throws e (src1, dst1) \<Rightarrow>
                 if \<not> index_ok new_data index then Aborts assertion_failed
                 else
                   (case destroy_at dst1 index of
                      None \<Rightarrow> Aborts undefined_behaviour
                    | Some dst1' \<Rightarrow>
                        Throws e (with_buffer v src1, new_data\<lparr>buffer_m := dst1'\<rparr>))
             | Returns (src1, dst1) u \<Rightarrow>
                 if \<not> plus_ok (data_m v) index \<or> \<not> plus_ok new_data (index + 1)
                 then Aborts assertion_failed
                 else if size_m v < index then Aborts undefined_behaviour
                 else
                   (case SafeMove T src1 index (size_m v - index) dst1 (index + 1) of
                      Aborts f \<Rightarrow> Aborts f
                    | Throws e (src2, dst2) \<Rightarrow>
                        (case destroy_n dst2 0 (index + 1) of
                           None \<Rightarrow> Aborts undefined_behaviour
                         | Some dst2' \<Rightarrow>
                             Throws e (with_buffer v src2, new_data\<lparr>buffer_m := dst2'\<rparr>))
                    | Returns (src2, dst2) u' \<Rightarrow>
                        (let (d, nd) = RawMemory_Swap ((data_m v)\<lparr>buffer_m := src2\<rparr>)
                                         (new_data\<lparr>buffer_m := dst2\<rparr>)
                         in Returns (\<lparr>data_m = d, size_m = size_m v + 1\<rparr>, nd) index))))"

definition EmplaceWithReallocate ::
  "'a element_type \<Rightarrow> 'a Vector \<Rightarrow> nat \<Rightarrow> 'a option \<Rightarrow> ('a Vector, nat) outcome" where
  "EmplaceWithReallocate T v index args =
     (case RawMemory_ctor T (if size_m v = 0 then 1 else size_m v * 2) of
        None \<Rightarrow> Throws bad_alloc v
      | Some new_data \<Rightarrow> leave_scope (EmplaceWithReallocate_body T v new_data index args))"

text \<open>
  \<open>EmplaceWithoutReallocate\<close>.  \<open>size_ - 1\<close> wraps around for \<open>size_ = 0\<close>, to an index
  that fails the assertion of \<open>RawMemory::operator[]\<close>.
\<close>

definition EmplaceWithoutReallocate ::
  "'a element_type \<Rightarrow> 'a Vector \<Rightarrow> nat \<Rightarrow> 'a option \<Rightarrow> ('a Vector, nat) outcome" where
  "EmplaceWithoutReallocate T v index args =
     (case args of
        None \<Rightarrow> Throws element_exception v
      | Some temp \<Rightarrow>
          (let buf = buffer_m (data_m v) in
           if \<not> plus_ok (data_m v) (size_m v) then Aborts assertion_failed
           else if size_m v = 0 \<or> \<not> index_ok (data_m v) (size_m v - 1)
           then Aborts assertion_failed
           else if \<not> live buf (size_m v - 1) \<or> \<not> size_m v < length buf
           then Aborts undefined_behaviour
           else if move_throws T (the (buf ! (size_m v - 1))) then Throws element_exception v
           else
             (case std_move_backward T
                     (buf[size_m v := buf ! (size_m v - 1),
                          size_m v - 1 := Some (moved_from T (the (buf ! (size_m v - 1))))])
                     (0 + index) (size_m v - 1) (size_m v) of
                Aborts f \<Rightarrow> Aborts f
              | Throws e buf' \<Rightarrow> Throws e (with_buffer v buf')
              | Returns buf' u \<Rightarrow>
                  if \<not> index_ok (data_m v) index then Aborts assertion_failed
                  else if \<not> live buf' index then Aborts undefined_behaviour
                  else if assign_move_throws T temp
                  then Throws element_exception (with_buffer v buf')
                  else Returns
                         ((with_buffer v (buf'[index := Some temp]))
                            \<lparr>size_m := size_m v + 1\<rparr>)
                         (0 + index))))"

definition Emplace ::
  "'a element_type \<Rightarrow> 'a Vector \<Rightarrow> nat \<Rightarrow> 'a option \<Rightarrow> ('a Vector, nat) outcome" where
  "Emplace T v pos args =
     (if \<not> plus_ok (data_m v) (size_m v) then Aborts assertion_failed
      else if pos = size_m v then EmplaceBack T v args
      else if size_m v = Capacity v then EmplaceWithReallocate T v pos args
      else EmplaceWithoutReallocate T v pos args)"

definition Insert_copy ::
  "'a element_type \<Rightarrow> 'a Vector \<Rightarrow> nat \<Rightarrow> 'a \<Rightarrow> ('a Vector, nat) outcome" where
  "Insert_copy T v pos val = Emplace T v pos (copy_construct T val)"

definition Insert_move ::
  "'a element_type \<Rightarrow> 'a Vector \<Rightarrow> nat \<Rightarrow> 'a \<Rightarrow> ('a Vector, nat) outcome" where
  "Insert_move T v pos val = Emplace T v pos (move_construct T val)"

definition Erase :: "'a element_type \<Rightarrow> 'a Vector \<Rightarrow> nat \<Rightarrow> ('a Vector, nat) outcome" where
  "Erase T v pos =
     (if \<not> size_m v > 0 then Aborts assertion_failed
      else if \<not> plus_ok (data_m v) (size_m v) then Aborts assertion_failed
      else
        (case std_move T (buffer_m (data_m v)) (pos + 1) (size_m v) pos of
           Aborts f \<Rightarrow> Aborts f
         | Throws e buf \<Rightarrow> Throws e (with_buffer v buf)
         | Returns buf u \<Rightarrow>
             if \<not> index_ok (data_m v) (size_m v - 1) then Aborts assertion_failed
             else
               (case destroy_at buf (size_m v - 1) of
                  None \<Rightarrow> Aborts undefined_behaviour
                | Some buf' \<Rightarrow>
                    Returns ((with_buffer v buf')\<lparr>size_m := size_m v - 1\<rparr>) (0 + pos))))"

text \<open>\<open>operator[]\<close>: the reference returned is the index of the slot.\<close>

definition subscript :: "'a Vector \<Rightarrow> nat \<Rightarrow> ('a Vector, nat) outcome" where
  "subscript v index =
     (if \<not> index < size_m v then Aborts assertion_failed
      else if \<not> index_ok (data_m v) index then Aborts assertion_failed
      else Returns v index)"

section \<open>The class invariant and the sequence of elements\<close>

text \<open>
  Slots \<open>[0, size)\<close> hold live objects, slots \<open>[size, capacity)\<close> hold none, the block has
  \<open>capacity\<close> slots, and \<open>size \<le> capacity\<close>.
\<close>

definition wf_Vector :: "'a Vector \<Rightarrow> bool" where
  "wf_Vector v \<longleftrightarrow>
     length (buffer_m (data_m v)) = capacity_m (data_m v) \<and>
     size_m v \<le> capacity_m (data_m v) \<and>
     list_all (\<lambda>s. s \<noteq> None) (take (size_m v) (buffer_m (data_m v))) \<and>
     list_all (\<lambda>s. s = None) (drop (size_m v) (buffer_m (data_m v)))"

definition elements :: "'a Vector \<Rightarrow> 'a list" where
  "elements v = map the (take (size_m v) (buffer_m (data_m v)))"

text \<open>The well-formed vector with elements \<open>xs\<close> and \<open>k\<close> free slots after them.\<close>

definition Vector_of :: "'a list \<Rightarrow> nat \<Rightarrow> 'a Vector" where
  "Vector_of xs k =
     \<lparr>data_m = \<lparr>buffer_m = map Some xs @ replicate k None, capacity_m = length xs + k\<rparr>,
      size_m = length xs\<rparr>"

section \<open>Notions used to state the results\<close>

text \<open>
  \<open>SafeMove\<close> transfers by move or by copy; a transfer of the values \<open>xs\<close> throws when
  the constructor it uses throws on one of them.  After a transfer by move that threw, the
  sources before the first throwing one are moved from (\<open>moved_prefix\<close>); a transfer by copy
  leaves its sources as they were.  \<open>assigned_prefix\<close> is a destination range after a
  copy assignment that stopped at the first throwing one.  \<open>growth\<close> is the capacity of the
  new block of a reallocating insertion.
\<close>

fun moved_prefix :: "'a element_type \<Rightarrow> 'a list \<Rightarrow> 'a list" where
  "moved_prefix T [] = []"
| "moved_prefix T (x # xs) =
     (if move_throws T x then x # xs else moved_from T x # moved_prefix T xs)"

fun assigned_prefix :: "'a element_type \<Rightarrow> 'a list \<Rightarrow> 'a list \<Rightarrow> 'a list" where
  "assigned_prefix T (x # xs) (y # ys) =
     (if copy_assign_throws T x then y # ys else x # assigned_prefix T xs ys)"
| "assigned_prefix T xs ys = ys"

definition transfers_by_move :: "'a element_type \<Rightarrow> bool" where
  "transfers_by_move T \<longleftrightarrow> is_nothrow_move_constructible_v T \<or> \<not> is_copy_constructible_v T"

definition transfer_throws :: "'a element_type \<Rightarrow> 'a list \<Rightarrow> bool" where
  "transfer_throws T xs \<longleftrightarrow>
     (if transfers_by_move T then \<exists>x\<in>set xs. move_throws T x
      else \<exists>x\<in>set xs. copy_ctor_throws T x)"

definition sources_after_throw :: "'a element_type \<Rightarrow> 'a list \<Rightarrow> 'a list" where
  "sources_after_throw T xs = (if transfers_by_move T then moved_prefix T xs else xs)"

definition growth :: "nat \<Rightarrow> nat" where
  "growth n = (if n = 0 then 1 else n * 2)"

section \<open>Example element types\<close>

text \<open>A type like \<open>int\<close>: nothing throws, and a moved-from object keeps its value.\<close>

definition int_like :: "nat element_type" where
  "int_like =
     \<lparr>is_nothrow_move_constructible_v = True, is_copy_constructible_v = True,
      is_nothrow_move_assignable_v = True, value_ctor = Some 0,
      copy_ctor_throws = (\<lambda>x. False), move_ctor_throws = (\<lambda>x. False),
      copy_assign_throws = (\<lambda>x. False), move_assign_throws = (\<lambda>x. False),
      moved_from = (\<lambda>x. x), operator_new_throws = (\<lambda>n. False)\<rparr>"

text \<open>
  A copyable type whose move constructor may throw, so that \<open>SafeMove\<close> copies: copying or
  moving the value 13 throws, and so does assigning from it.
\<close>

definition throwing_copy :: "nat element_type" where
  "throwing_copy =
     \<lparr>is_nothrow_move_constructible_v = False, is_copy_constructible_v = True,
      is_nothrow_move_assignable_v = False, value_ctor = Some 0,
      copy_ctor_throws = (\<lambda>x. x = 13), move_ctor_throws = (\<lambda>x. x = 13),
      copy_assign_throws = (\<lambda>x. x = 13), move_assign_throws = (\<lambda>x. x = 13),
      moved_from = (\<lambda>x. 0), operator_new_throws = (\<lambda>n. False)\<rparr>"


text \<open>A type like \<open>int\<close> with an allocator that fails on every request.\<close>

definition int_like_no_memory :: "nat element_type" where
  "int_like_no_memory = int_like\<lparr>operator_new_throws := (\<lambda>n. True)\<rparr>"

definition size_le_capacity :: "'a Vector \<Rightarrow> bool" where
  "size_le_capacity v \<longleftrightarrow> Size v \<le> Capacity v"

section \<open>Lists of slots\<close>

text \<open>Reading and updating the slot that follows a prefix of known length.\<close>

lemma live_mid [simp]: "live (pre @ Some x # post) (length pre)"
  by (simp add: live_def)

lemma live_mid2 [simp]: "live (pre @ ys @ Some x # post) (length pre + length ys)"
  using live_mid [of "pre @ ys" x post] by simp

lemma nth_mid2 [simp]: "(pre @ ys @ x # post) ! (length pre + length ys) = x"
  using nth_append_length [of "pre @ ys" x post] by simp

lemma upd_mid2 [simp]: "(pre @ ys @ x # post)[length pre + length ys := y] = pre @ ys @ y # post"
  using list_update_length [of "pre @ ys" x post y] by simp

lemma live_mid_map [simp]:
  "live (pre @ map f ys @ Some x # post) (length pre + length ys)"
  using live_mid2 [of pre "map f ys" x post] by simp

lemma nth_mid_map [simp]: "(pre @ map f ys @ x # post) ! (length pre + length ys) = x"
  using nth_mid2 [of pre "map f ys" x post] by simp

lemma upd_mid_map [simp]:
  "(pre @ map f ys @ x # post)[length pre + length ys := y] = pre @ map f ys @ y # post"
  using upd_mid2 [of pre "map f ys" x post y] by simp

lemma live_map_len [simp]: "live (map f ys @ Some x # post) (length ys)"
  using live_mid [of "map f ys" x post] by simp

lemma nth_map_len [simp]: "(map f ys @ x # post) ! length ys = x"
  using nth_append_length [of "map f ys" x post] by simp

lemma upd_map_len [simp]: "(map f ys @ x # post)[length ys := y] = map f ys @ y # post"
  using list_update_length [of "map f ys" x post y] by simp

section \<open>The standard algorithms on ranges of live objects\<close>

text \<open>
  Each algorithm on a source range that holds the live objects \<open>xs\<close> (and a destination
  range of raw slots, or of live objects for an assignment): it returns when nothing throws
  and otherwise throws, with the clean-up the algorithm does.  No case is undefined.
\<close>

lemma destroy_n_append:
  "destroy_n (pre @ map Some xs @ post) (length pre) (length xs)
     = Some (pre @ replicate (length xs) None @ post)"
proof (induction xs arbitrary: pre)
  case Nil
  show ?case by simp
next
  case (Cons x xs)
  have "destroy_n ((pre @ [None]) @ map Some xs @ post) (length (pre @ [None])) (length xs)
          = Some ((pre @ [None]) @ replicate (length xs) None @ post)"
    by (rule Cons.IH)
  then show ?case by simp
qed

lemma destroy_n_prefix:
  "destroy_n (map Some xs @ post) 0 (length xs) = Some (replicate (length xs) None @ post)"
  using destroy_n_append [of "[]" xs post] by simp

lemma uninitialized_copy_loop_append:
  "uninitialized_copy_loop T (spre @ map Some xs @ spost) (length spre) (length xs)
       (dpre @ map Some ys @ replicate (length xs) None @ dpost) (length dpre)
       (length dpre + length ys)
     = (if \<exists>x\<in>set xs. copy_ctor_throws T x
        then Throws element_exception (dpre @ replicate (length ys + length xs) None @ dpost)
        else Returns (dpre @ map Some (ys @ xs) @ dpost) ())"
proof (induction xs arbitrary: spre ys)
  case Nil
  show ?case by simp
next
  case (Cons x xs)
  have d: "destroy_n (dpre @ map Some ys @ None # replicate (length xs) None @ dpost)
             (length dpre) (length ys)
           = Some (dpre @ replicate (length ys) None @ None # replicate (length xs) None @ dpost)"
    by (rule destroy_n_append)
  have ih: "uninitialized_copy_loop T ((spre @ [Some x]) @ map Some xs @ spost)
              (length (spre @ [Some x])) (length xs)
              (dpre @ map Some (ys @ [x]) @ replicate (length xs) None @ dpost) (length dpre)
              (length dpre + length (ys @ [x]))
            = (if \<exists>x\<in>set xs. copy_ctor_throws T x
               then Throws element_exception
                      (dpre @ replicate (length (ys @ [x]) + length xs) None @ dpost)
               else Returns (dpre @ map Some ((ys @ [x]) @ xs) @ dpost) ())"
    by (rule Cons.IH)
  show ?case
  proof (cases "copy_ctor_throws T x")
    case True
    then show ?thesis using d by (simp add: replicate_add replicate_app_Cons_same)
  next
    case False
    then show ?thesis using ih by simp
  qed
qed

lemma uninitialized_copy_n_append:
  "uninitialized_copy_n T (spre @ map Some xs @ spost) (length spre) (length xs)
       (dpre @ replicate (length xs) None @ dpost) (length dpre)
     = (if \<exists>x\<in>set xs. copy_ctor_throws T x
        then Throws element_exception (dpre @ replicate (length xs) None @ dpost)
        else Returns (dpre @ map Some xs @ dpost) ())"
  using uninitialized_copy_loop_append [of T spre xs spost dpre "[]" dpost]
  by (simp add: uninitialized_copy_n_def)

lemma uninitialized_move_loop_append:
  "uninitialized_move_loop T (spre @ map Some xs @ spost) (length spre) (length xs)
       (dpre @ map Some ys @ replicate (length xs) None @ dpost) (length dpre)
       (length dpre + length ys)
     = (if \<exists>x\<in>set xs. move_throws T x
        then Throws element_exception
               (spre @ map Some (moved_prefix T xs) @ spost,
                dpre @ replicate (length ys + length xs) None @ dpost)
        else Returns (spre @ map (\<lambda>x. Some (moved_from T x)) xs @ spost,
                      dpre @ map Some (ys @ xs) @ dpost) ())"
proof (induction xs arbitrary: spre ys)
  case Nil
  show ?case by simp
next
  case (Cons x xs)
  have d: "destroy_n (dpre @ map Some ys @ None # replicate (length xs) None @ dpost)
             (length dpre) (length ys)
           = Some (dpre @ replicate (length ys) None @ None # replicate (length xs) None @ dpost)"
    by (rule destroy_n_append)
  have ih: "uninitialized_move_loop T ((spre @ [Some (moved_from T x)]) @ map Some xs @ spost)
              (length (spre @ [Some (moved_from T x)])) (length xs)
              (dpre @ map Some (ys @ [x]) @ replicate (length xs) None @ dpost) (length dpre)
              (length dpre + length (ys @ [x]))
            = (if \<exists>x\<in>set xs. move_throws T x
               then Throws element_exception
                      ((spre @ [Some (moved_from T x)]) @ map Some (moved_prefix T xs) @ spost,
                       dpre @ replicate (length (ys @ [x]) + length xs) None @ dpost)
               else Returns ((spre @ [Some (moved_from T x)])
                               @ map (\<lambda>x. Some (moved_from T x)) xs @ spost,
                             dpre @ map Some ((ys @ [x]) @ xs) @ dpost) ())"
    by (rule Cons.IH)
  show ?case
  proof (cases "move_throws T x")
    case True
    then show ?thesis using d by (simp add: replicate_add replicate_app_Cons_same)
  next
    case False
    then show ?thesis using ih by simp
  qed
qed

lemma uninitialized_move_n_append:
  "uninitialized_move_n T (spre @ map Some xs @ spost) (length spre) (length xs)
       (dpre @ replicate (length xs) None @ dpost) (length dpre)
     = (if \<exists>x\<in>set xs. move_throws T x
        then Throws element_exception
               (spre @ map Some (moved_prefix T xs) @ spost,
                dpre @ replicate (length xs) None @ dpost)
        else Returns (spre @ map (\<lambda>x. Some (moved_from T x)) xs @ spost,
                      dpre @ map Some xs @ dpost) ())"
  using uninitialized_move_loop_append [of T spre xs spost dpre "[]" dpost]
  by (simp add: uninitialized_move_n_def)

lemma uninitialized_value_construct_loop_append:
  "uninitialized_value_construct_loop T (pre @ map Some ys @ replicate n None @ post)
       (length pre) (length pre + length ys) n
     = (case value_ctor T of
          Some x \<Rightarrow> Returns (pre @ map Some (ys @ replicate n x) @ post) ()
        | None \<Rightarrow>
            if n = 0 then Returns (pre @ map Some ys @ post) ()
            else Throws element_exception (pre @ replicate (length ys + n) None @ post))"
proof (induction n arbitrary: ys)
  case 0
  show ?case by (simp split: option.splits)
next
  case (Suc n)
  show ?case
  proof (cases "value_ctor T")
    case None
    have "destroy_n (pre @ map Some ys @ None # replicate n None @ post) (length pre) (length ys)
            = Some (pre @ replicate (length ys) None @ None # replicate n None @ post)"
      by (rule destroy_n_append)
    then show ?thesis using None by (simp add: replicate_add replicate_app_Cons_same)
  next
    case (Some x)
    have "uninitialized_value_construct_loop T
            (pre @ map Some (ys @ [x]) @ replicate n None @ post)
            (length pre) (length pre + length (ys @ [x])) n
          = Returns (pre @ map Some ((ys @ [x]) @ replicate n x) @ post) ()"
      using Suc.IH [of "ys @ [x]"] Some by simp
    then show ?thesis using Some by (simp add: replicate_app_Cons_same)
  qed
qed

lemma uninitialized_value_construct_n_append:
  "uninitialized_value_construct_n T (pre @ replicate n None @ post) (length pre) n
     = (case value_ctor T of
          Some x \<Rightarrow> Returns (pre @ map Some (replicate n x) @ post) ()
        | None \<Rightarrow>
            if n = 0 then Returns (pre @ post) ()
            else Throws element_exception (pre @ replicate n None @ post))"
  using uninitialized_value_construct_loop_append [of T pre "[]" n post]
  by (simp add: uninitialized_value_construct_n_def split: option.splits)

lemma copy_n_append:
  "length ys = length xs \<Longrightarrow>
   copy_n T (spre @ map Some xs @ spost) (length spre) (length xs)
       (dpre @ map Some ys @ dpost) (length dpre)
     = (if \<exists>x\<in>set xs. copy_assign_throws T x
        then Throws element_exception (dpre @ map Some (assigned_prefix T xs ys) @ dpost)
        else Returns (dpre @ map Some xs @ dpost) (length dpre + length xs))"
proof (induction ys xs arbitrary: spre dpre rule: list_induct2)
  case Nil
  show ?case by simp
next
  case (Cons y ys x xs)
  have ih: "copy_n T ((spre @ [Some x]) @ map Some xs @ spost) (length (spre @ [Some x]))
              (length xs) ((dpre @ [Some x]) @ map Some ys @ dpost) (length (dpre @ [Some x]))
            = (if \<exists>x\<in>set xs. copy_assign_throws T x
               then Throws element_exception
                      ((dpre @ [Some x]) @ map Some (assigned_prefix T xs ys) @ dpost)
               else Returns ((dpre @ [Some x]) @ map Some xs @ dpost)
                      (length (dpre @ [Some x]) + length xs))"
    by (rule Cons.IH)
  show ?case
  proof (cases "copy_assign_throws T x")
    case True
    then show ?thesis by simp
  next
    case False
    then show ?thesis using ih by simp
  qed
qed

lemma move_loop_returns:
  "\<forall>x\<in>set xs. \<not> assign_move_throws T x \<Longrightarrow>
   \<exists>z. move_loop T (pre @ Some a # map Some xs @ post) (Suc (length pre)) (length xs)
          (length pre)
        = Returns (pre @ map Some xs @ Some z # post) ()"
proof (induction xs arbitrary: pre a)
  case Nil
  show ?case by simp
next
  case (Cons x xs)
  from Cons.prems have nx: "\<not> assign_move_throws T x"
    and rest: "\<forall>x\<in>set xs. \<not> assign_move_throws T x" by simp_all
  obtain z where z: "move_loop T ((pre @ [Some x]) @ Some (moved_from T x) # map Some xs @ post)
                       (Suc (length (pre @ [Some x]))) (length xs) (length (pre @ [Some x]))
                     = Returns ((pre @ [Some x]) @ map Some xs @ Some z # post) ()"
    using Cons.IH [OF rest] by blast
  have l1: "live (pre @ Some a # Some x # map Some xs @ post) (Suc (length pre))"
    using live_mid [of "pre @ [Some a]" x "map Some xs @ post"] by simp
  have n1: "(pre @ Some a # Some x # map Some xs @ post) ! Suc (length pre) = Some x"
    using nth_append_length [of "pre @ [Some a]" "Some x" "map Some xs @ post"] by simp
  have u1: "(pre @ Some x # Some x # map Some xs @ post)[Suc (length pre) := Some (moved_from T x)]
            = pre @ Some x # Some (moved_from T x) # map Some xs @ post"
    using list_update_length [of "pre @ [Some x]" "Some x" "map Some xs @ post"
            "Some (moved_from T x)"] by simp
  show ?case using z nx l1 n1 u1 by simp
qed

lemma move_loop_throws:
  "\<exists>x\<in>set xs. assign_move_throws T x \<Longrightarrow>
   \<exists>buf. move_loop T (pre @ Some a # map Some xs @ post) (Suc (length pre)) (length xs)
            (length pre)
          = Throws element_exception buf"
proof (induction xs arbitrary: pre a)
  case Nil
  then show ?case by simp
next
  case (Cons x xs)
  have l1: "live (pre @ Some a # Some x # map Some xs @ post) (Suc (length pre))"
    using live_mid [of "pre @ [Some a]" x "map Some xs @ post"] by simp
  have n1: "(pre @ Some a # Some x # map Some xs @ post) ! Suc (length pre) = Some x"
    using nth_append_length [of "pre @ [Some a]" "Some x" "map Some xs @ post"] by simp
  have u1: "(pre @ Some x # Some x # map Some xs @ post)[Suc (length pre) := Some (moved_from T x)]
            = pre @ Some x # Some (moved_from T x) # map Some xs @ post"
    using list_update_length [of "pre @ [Some x]" "Some x" "map Some xs @ post"
            "Some (moved_from T x)"] by simp
  show ?case
  proof (cases "assign_move_throws T x")
    case True
    then show ?thesis using l1 n1 by simp
  next
    case False
    with Cons.prems have "\<exists>x\<in>set xs. assign_move_throws T x" by simp
    then obtain buf where
      "move_loop T ((pre @ [Some x]) @ Some (moved_from T x) # map Some xs @ post)
         (Suc (length (pre @ [Some x]))) (length xs) (length (pre @ [Some x]))
       = Throws element_exception buf"
      using Cons.IH by blast
    then show ?thesis using False l1 n1 u1 by simp
  qed
qed

lemma move_backward_step:
  "move_backward_loop T (pre @ map Some xs @ Some y # Some a # post)
       (Suc (length pre + length xs)) (Suc n) (Suc (Suc (length pre + length xs)))
     = (if assign_move_throws T y
        then Throws element_exception (pre @ map Some xs @ Some y # Some a # post)
        else move_backward_loop T (pre @ map Some xs @ Some (moved_from T y) # Some y # post)
               (length pre + length xs) n (Suc (length pre + length xs)))"
proof -
  let ?buf = "pre @ map Some xs @ Some y # Some a # post"
  have l1: "live ?buf (length pre + length xs)" by simp
  have l2: "live ?buf (Suc (length pre + length xs))"
    using live_mid [of "pre @ map Some xs @ [Some y]" a post] by simp
  have n1: "?buf ! (length pre + length xs) = Some y" by (simp add: nth_append)
  have u1: "?buf[Suc (length pre + length xs) := Some y]
            = pre @ map Some xs @ Some y # Some y # post"
    using list_update_length [of "pre @ map Some xs @ [Some y]" "Some a" post "Some y"] by simp
  show ?thesis using l1 l2 n1 u1 by simp
qed

lemma move_backward_loop_returns:
  "\<forall>x\<in>set xs. \<not> assign_move_throws T x \<Longrightarrow>
   \<exists>z. move_backward_loop T (pre @ map Some xs @ Some a # post)
          (length pre + length xs) (length xs) (Suc (length pre + length xs))
        = Returns (pre @ Some z # map Some xs @ post) ()"
proof (induction xs arbitrary: a post rule: rev_induct)
  case Nil
  show ?case by simp
next
  case (snoc y xs)
  from snoc.prems have ny: "\<not> assign_move_throws T y"
    and rest: "\<forall>x\<in>set xs. \<not> assign_move_throws T x" by simp_all
  obtain z where "move_backward_loop T (pre @ map Some xs @ Some (moved_from T y) # Some y # post)
                    (length pre + length xs) (length xs) (Suc (length pre + length xs))
                  = Returns (pre @ Some z # map Some xs @ Some y # post) ()"
    using snoc.IH [OF rest] by blast
  then show ?case using ny move_backward_step [of T pre xs y a post "length xs"] by simp
qed

lemma move_backward_loop_throws:
  "\<exists>x\<in>set xs. assign_move_throws T x \<Longrightarrow>
   \<exists>buf. move_backward_loop T (pre @ map Some xs @ Some a # post)
            (length pre + length xs) (length xs) (Suc (length pre + length xs))
          = Throws element_exception buf"
proof (induction xs arbitrary: a post rule: rev_induct)
  case Nil
  then show ?case by simp
next
  case (snoc y xs)
  show ?case
  proof (cases "assign_move_throws T y")
    case True
    then show ?thesis using move_backward_step [of T pre xs y a post "length xs"] by simp
  next
    case False
    with snoc.prems have "\<exists>x\<in>set xs. assign_move_throws T x" by simp
    then obtain buf where
      "move_backward_loop T (pre @ map Some xs @ Some (moved_from T y) # Some y # post)
         (length pre + length xs) (length xs) (Suc (length pre + length xs))
       = Throws element_exception buf"
      using snoc.IH by blast
    then show ?thesis using False move_backward_step [of T pre xs y a post "length xs"] by simp
  qed
qed

section \<open>SafeMove\<close>

lemma SafeMove_append:
  "SafeMove T (spre @ map Some xs @ spost) (length spre) (length xs)
       (dpre @ replicate (length xs) None @ dpost) (length dpre)
     = (if is_nothrow_move_constructible_v T \<or> \<not> is_copy_constructible_v T then
          (if \<exists>x\<in>set xs. move_throws T x
           then Throws element_exception
                  (spre @ map Some (moved_prefix T xs) @ spost,
                   dpre @ replicate (length xs) None @ dpost)
           else Returns (spre @ replicate (length xs) None @ spost,
                         dpre @ map Some xs @ dpost) ())
        else
          (if \<exists>x\<in>set xs. copy_ctor_throws T x
           then Throws element_exception
                  (spre @ map Some xs @ spost, dpre @ replicate (length xs) None @ dpost)
           else Returns (spre @ replicate (length xs) None @ spost,
                         dpre @ map Some xs @ dpost) ()))"
proof -
  have d1: "destroy_n (spre @ map (\<lambda>x. Some (moved_from T x)) xs @ spost) (length spre) (length xs)
            = Some (spre @ replicate (length xs) None @ spost)"
    using destroy_n_append [of spre "map (moved_from T) xs" spost] by (simp add: comp_def)
  have d2: "destroy_n (spre @ map Some xs @ spost) (length spre) (length xs)
            = Some (spre @ replicate (length xs) None @ spost)"
    by (rule destroy_n_append)
  show ?thesis
    unfolding SafeMove_def uninitialized_move_n_append uninitialized_copy_n_append
    using d1 d2 by simp
qed

section \<open>Well-formed vectors\<close>

text \<open>
  A well-formed vector is \<open>Vector_of xs k\<close> for its elements \<open>xs\<close> and its number \<open>k\<close> of
  free slots.
\<close>

lemma all_live_map: "list_all (\<lambda>s. s \<noteq> None) ys \<Longrightarrow> map Some (map the ys) = ys"
  by (induction ys) auto

lemma all_raw_replicate: "list_all (\<lambda>s. s = None) ys \<Longrightarrow> ys = replicate (length ys) None"
  by (induction ys) auto

lemma wf_Vector_of [simp]: "wf_Vector (Vector_of xs k)"
  by (simp add: wf_Vector_def Vector_of_def list_all_iff)

lemma elements_Vector_of [simp]: "elements (Vector_of xs k) = xs"
  by (simp add: elements_def Vector_of_def comp_def)

lemma size_Vector_of [simp]: "size_m (Vector_of xs k) = length xs"
  by (simp add: Vector_of_def)

lemma Capacity_Vector_of [simp]: "Capacity (Vector_of xs k) = length xs + k"
  by (simp add: Vector_of_def Capacity_def)

lemma wf_Vector_repr:
  assumes "wf_Vector v"
  shows "v = Vector_of (elements v) (Capacity v - size_m v)"
proof -
  let ?buf = "buffer_m (data_m v)"
  from assms have len: "length ?buf = capacity_m (data_m v)"
    and le: "size_m v \<le> capacity_m (data_m v)"
    and lv: "list_all (\<lambda>s. s \<noteq> None) (take (size_m v) ?buf)"
    and rw: "list_all (\<lambda>s. s = None) (drop (size_m v) ?buf)"
    by (simp_all add: wf_Vector_def)
  have "?buf = take (size_m v) ?buf @ drop (size_m v) ?buf" by simp
  also have "take (size_m v) ?buf = map Some (elements v)"
    using all_live_map [OF lv] by (simp add: elements_def)
  also have "drop (size_m v) ?buf = replicate (capacity_m (data_m v) - size_m v) None"
    using all_raw_replicate [OF rw] len by simp
  finally have buf: "?buf = map Some (elements v) @ replicate (capacity_m (data_m v) - size_m v) None" .
  have sz: "length (elements v) = size_m v"
    using len le by (simp add: elements_def)
  show ?thesis
    using buf sz le by (cases v, cases "data_m v") (simp add: Vector_of_def Capacity_def)
qed

lemma wf_VectorE:
  assumes "wf_Vector v"
  obtains xs k where "v = Vector_of xs k"
  using wf_Vector_repr [OF assms] by blast

section \<open>EmplaceBack\<close>

lemma length_moved_prefix [simp]: "length (moved_prefix T xs) = length xs"
  by (induction xs) auto

lemma replicate_update:
  "i < n \<Longrightarrow> (replicate n a)[i := b] = replicate i a @ b # replicate (n - i - 1) a"
  by (auto simp: list_eq_iff_nth_eq nth_append nth_Cons' nth_list_update)

lemma RawMemory_ctor_eq:
  "RawMemory_ctor T n =
     (if n \<noteq> 0 \<and> operator_new_throws T n then None
      else Some \<lparr>buffer_m = replicate n None, capacity_m = n\<rparr>)"
  by (simp add: RawMemory_ctor_def Allocate_def)

lemma length_sources_after_throw [simp]: "length (sources_after_throw T xs) = length xs"
  by (simp add: sources_after_throw_def)

lemma SafeMove_transfer:
  "SafeMove T (spre @ map Some xs @ spost) (length spre) (length xs)
       (dpre @ replicate (length xs) None @ dpost) (length dpre)
     = (if transfer_throws T xs
        then Throws element_exception
               (spre @ map Some (sources_after_throw T xs) @ spost,
                dpre @ replicate (length xs) None @ dpost)
        else Returns (spre @ replicate (length xs) None @ spost,
                      dpre @ map Some xs @ dpost) ())"
  by (simp add: SafeMove_append transfer_throws_def sources_after_throw_def
      transfers_by_move_def)

lemma SafeMove_transfer_whole:
  "SafeMove T (map Some xs) 0 (length xs) (replicate (length xs) None @ dpost) 0
     = (if transfer_throws T xs
        then Throws element_exception
               (map Some (sources_after_throw T xs), replicate (length xs) None @ dpost)
        else Returns (replicate (length xs) None, map Some xs @ dpost) ())"
  using SafeMove_transfer [of T "[]" xs "[]" "[]" dpost] by simp

lemma EmplaceBack_realloc_transfer:
  assumes "length xs < n"
  shows "EmplaceBack_realloc T (Vector_of xs 0) \<lparr>buffer_m = replicate n None, capacity_m = n\<rparr>
           (Some x)
     = (if transfer_throws T xs
        then Throws element_exception
               (Vector_of (sources_after_throw T xs) 0,
                \<lparr>buffer_m = replicate (length xs) None @ Some x
                              # replicate (n - length xs - 1) None,
                 capacity_m = n\<rparr>)
        else Returns (Vector_of (xs @ [x]) (n - length xs - 1),
                      \<lparr>buffer_m = replicate (length xs) None, capacity_m = length xs\<rparr>)
               (length xs))"
  using assms
  by (simp add: EmplaceBack_realloc_def Vector_of_def plus_ok_def index_ok_def
      replicate_update SafeMove_transfer_whole with_buffer_def RawMemory_Swap_def)

lemma EmplaceBack_Vector_of:
  "EmplaceBack T (Vector_of xs k) args
     = (if k = 0 then
          (if operator_new_throws T (growth (length xs)) then Throws bad_alloc (Vector_of xs 0)
           else case args of
             None \<Rightarrow> Throws element_exception (Vector_of xs 0)
           | Some x \<Rightarrow>
               if transfer_throws T xs
               then Throws element_exception (Vector_of (sources_after_throw T xs) 0)
               else Returns (Vector_of (xs @ [x]) (growth (length xs) - length xs - 1))
                      (length xs))
        else case args of
          None \<Rightarrow> Throws element_exception (Vector_of xs k)
        | Some x \<Rightarrow> Returns (Vector_of (xs @ [x]) (k - 1)) (length xs))"
proof (cases "k = 0")
  case True
  have lt: "length xs < growth (length xs)" by (simp add: growth_def)
  have pos: "growth (length xs) \<noteq> 0" by (simp add: growth_def)
  have none: "EmplaceBack_realloc T (Vector_of xs 0)
                \<lparr>buffer_m = replicate (growth (length xs)) None,
                 capacity_m = growth (length xs)\<rparr> None
              = Throws element_exception
                  (Vector_of xs 0, \<lparr>buffer_m = replicate (growth (length xs)) None,
                                    capacity_m = growth (length xs)\<rparr>)"
    using lt by (simp add: EmplaceBack_realloc_def plus_ok_def)
  have g: "(if length xs = 0 then 1 else length xs * 2) = growth (length xs)"
    by (simp add: growth_def)
  have "EmplaceBack T (Vector_of xs 0) args
        = (if operator_new_throws T (growth (length xs)) then Throws bad_alloc (Vector_of xs 0)
           else leave_scope (EmplaceBack_realloc T (Vector_of xs 0)
                  \<lparr>buffer_m = replicate (growth (length xs)) None,
                   capacity_m = growth (length xs)\<rparr> args))"
    by (simp add: EmplaceBack_def RawMemory_ctor_eq growth_def)
  then show ?thesis
    using True none EmplaceBack_realloc_transfer [OF lt, of T]
    by (cases args) simp_all
next
  case False
  then obtain k' where k: "k = Suc k'" by (cases k) auto
  show ?thesis
    unfolding k
    by (cases args)
       (simp_all add: EmplaceBack_def Vector_of_def Capacity_def plus_ok_def index_ok_def
          with_buffer_def)
qed

section \<open>The private functions of Emplace\<close>

text \<open>
  \<open>EmplaceWithReallocate\<close> and \<open>EmplaceWithoutReallocate\<close> on a well-formed vector whose
  elements are split at the insertion position.
\<close>

lemma live_rep_len [simp]: "live (replicate k a @ Some x # post) k"
  using live_mid [of "replicate k a" x post] by simp

lemma nth_rep_len [simp]: "(replicate k a @ x # post) ! k = x"
  using nth_append_length [of "replicate k a" x post] by simp

lemma upd_rep_len [simp]: "(replicate k a @ x # post)[k := y] = replicate k a @ y # post"
  using list_update_length [of "replicate k a" x post y] by simp

lemma live_map2_len [simp]:
  "live (map f ps @ map g ms @ Some x # post) (length ps + length ms)"
  using live_mid [of "map f ps @ map g ms" x post] by simp

lemma nth_map2_len [simp]: "(map f ps @ map g ms @ x # post) ! (length ps + length ms) = x"
  using nth_append_length [of "map f ps @ map g ms" x post] by simp

lemma upd_map2_len [simp]:
  "(map f ps @ map g ms @ x # post)[length ps + length ms := y]
     = map f ps @ map g ms @ y # post"
  using list_update_length [of "map f ps @ map g ms" x post y] by simp

lemma replicate_split3:
  "i + j < n \<Longrightarrow>
   replicate n a = replicate i a @ a # replicate j a @ replicate (n - i - j - 1) a"
proof -
  assume "i + j < n"
  then have "n = i + (Suc (j + (n - i - j - 1)))" by simp
  then have "replicate n a = replicate (i + (Suc (j + (n - i - j - 1)))) a" by simp
  then show ?thesis by (simp only: replicate_add replicate_Suc)
qed

lemma EmplaceWithReallocate_body_shape:
  "EmplaceWithReallocate_body T (Vector_of (ps @ ss) 0)
     \<lparr>buffer_m = replicate (length ps) None @ None # replicate (length ss) None
                   @ replicate m None,
      capacity_m = length ps + length ss + Suc m\<rparr> (length ps) (Some x)
     = (if transfer_throws T ps
        then Throws element_exception
               (Vector_of (sources_after_throw T ps @ ss) 0,
                \<lparr>buffer_m = replicate (length ps) None @ None # replicate (length ss) None
                              @ replicate m None,
                 capacity_m = length ps + length ss + Suc m\<rparr>)
        else if transfer_throws T ss
        then Throws element_exception
               (with_buffer (Vector_of (ps @ ss) 0)
                  (replicate (length ps) None @ map Some (sources_after_throw T ss)),
                \<lparr>buffer_m = replicate (length ps) None @ None # replicate (length ss) None
                              @ replicate m None,
                 capacity_m = length ps + length ss + Suc m\<rparr>)
        else Returns (Vector_of (ps @ x # ss) m,
                      \<lparr>buffer_m = replicate (length ps + length ss) None,
                       capacity_m = length ps + length ss\<rparr>)
               (length ps))"
proof -
  let ?rest = "replicate m None :: 'a slots"
  have s1: "SafeMove T (map Some ps @ map Some ss) 0 (length ps)
              (replicate (length ps) None @ Some x # replicate (length ss) None @ ?rest) 0
            = (if transfer_throws T ps
               then Throws element_exception
                      (map Some (sources_after_throw T ps) @ map Some ss,
                       replicate (length ps) None @ Some x # replicate (length ss) None @ ?rest)
               else Returns (replicate (length ps) None @ map Some ss,
                             map Some ps @ Some x # replicate (length ss) None @ ?rest) ())"
    using SafeMove_transfer [of T "[]" ps "map Some ss" "[]"
            "Some x # replicate (length ss) None @ ?rest"] by simp
  have s2: "SafeMove T (replicate (length ps) None @ map Some ss) (length ps) (length ss)
              (map Some ps @ Some x # replicate (length ss) None @ ?rest) (Suc (length ps))
            = (if transfer_throws T ss
               then Throws element_exception
                      (replicate (length ps) None @ map Some (sources_after_throw T ss),
                       map Some ps @ Some x # replicate (length ss) None @ ?rest)
               else Returns (replicate (length ps) None @ replicate (length ss) None,
                             map Some ps @ Some x # map Some ss @ ?rest) ())"
    using SafeMove_transfer [of T "replicate (length ps) None" ss "[]" "map Some ps @ [Some x]"
            ?rest] by simp
  have d2: "destroy_n (map Some ps @ Some x # replicate (length ss) None @ ?rest) 0
              (Suc (length ps))
            = Some (replicate (length ps) None @ None # replicate (length ss) None @ ?rest)"
    using destroy_n_append [of "[]" "ps @ [x]" "replicate (length ss) None @ ?rest"]
    by (simp add: replicate_app_Cons_same)
  show ?thesis
    by (simp add: EmplaceWithReallocate_body_def Vector_of_def plus_ok_def index_ok_def s1 s2
        d2 destroy_at_def with_buffer_def RawMemory_Swap_def replicate_add
        del: destroy_n.simps)
qed


lemma growth_gt: "n < growth n"
  by (simp add: growth_def)

lemma EmplaceWithReallocate_Vector_of:
  "EmplaceWithReallocate T (Vector_of (ps @ ss) 0) (length ps) args
     = (if operator_new_throws T (growth (length ps + length ss))
        then Throws bad_alloc (Vector_of (ps @ ss) 0)
        else case args of
          None \<Rightarrow> Throws element_exception (Vector_of (ps @ ss) 0)
        | Some x \<Rightarrow>
            if transfer_throws T ps
            then Throws element_exception (Vector_of (sources_after_throw T ps @ ss) 0)
            else if transfer_throws T ss
            then Throws element_exception
                   (with_buffer (Vector_of (ps @ ss) 0)
                      (replicate (length ps) None @ map Some (sources_after_throw T ss)))
            else Returns (Vector_of (ps @ x # ss)
                            (growth (length ps + length ss) - length ps - length ss - 1))
                   (length ps))"
proof -
  let ?s = "length ps + length ss"
  let ?m = "growth ?s - length ps - length ss - 1"
  let ?new = "\<lparr>buffer_m = replicate (length ps) None @ None # replicate (length ss) None
                             @ replicate ?m None,
                capacity_m = length ps + length ss + Suc ?m\<rparr> :: 'a RawMemory"
  have lt: "?s < growth ?s" by (rule growth_gt)
  have cap: "length ps + length ss + Suc ?m = growth ?s" using lt by simp
  have buf: "replicate (growth ?s) None
             = replicate (length ps) None @ None # replicate (length ss) None
                 @ replicate ?m (None :: 'a option)"
    using replicate_split3 [OF lt] .
  have g: "(if size_m (Vector_of (ps @ ss) 0) = 0 then 1
            else size_m (Vector_of (ps @ ss) 0) * 2) = growth ?s"
    by (simp add: growth_def)
  have "RawMemory_ctor T (growth ?s)
        = (if operator_new_throws T (growth ?s) then None
           else Some \<lparr>buffer_m = replicate (growth ?s) None, capacity_m = growth ?s\<rparr>)"
    using lt by (simp add: RawMemory_ctor_eq)
  also have "\<lparr>buffer_m = replicate (growth ?s) None, capacity_m = growth ?s\<rparr> = ?new"
    using buf cap by simp
  finally have ctor: "RawMemory_ctor T (growth ?s)
                      = (if operator_new_throws T (growth ?s) then None else Some ?new)" .
  have none: "EmplaceWithReallocate_body T (Vector_of (ps @ ss) 0) ?new (length ps) None
              = Throws element_exception (Vector_of (ps @ ss) 0, ?new)"
    by (simp add: EmplaceWithReallocate_body_def plus_ok_def)
  show ?thesis
    unfolding EmplaceWithReallocate_def g ctor
    using none EmplaceWithReallocate_body_shape [of T ps ss ?m]
    by (cases args) simp_all
qed

lemma EmplaceWithoutReallocate_returns:
  assumes "\<not> move_throws T l" "\<forall>y\<in>set ms. \<not> assign_move_throws T y"
    "\<not> assign_move_throws T x"
  shows "EmplaceWithoutReallocate T (Vector_of (ps @ ms @ [l]) (Suc k)) (length ps) (Some x)
         = Returns (Vector_of (ps @ x # ms @ [l]) k) (length ps)"
proof -
  let ?buf = "map Some ps @ map Some ms @ Some l # None # replicate k None"
  let ?sz = "length ps + length ms"
  have l1: "live ?buf ?sz" by simp
  have n1: "?buf ! ?sz = Some l" by simp
  have u1: "?buf[Suc ?sz := Some l] = map Some ps @ map Some ms @ Some l # Some l # replicate k None"
    using list_update_length [of "map Some ps @ map Some ms @ [Some l]" None "replicate k None"
            "Some l"] by simp
  obtain z where mb: "move_backward_loop T
                        (map Some ps @ map Some ms @ Some (moved_from T l) # Some l # replicate k None)
                        (length ps + length ms) (length ms) (Suc (length ps + length ms))
                      = Returns (map Some ps @ Some z # map Some ms @ Some l # replicate k None) ()"
    using move_backward_loop_returns [OF assms(2), of "map Some ps" "moved_from T l"
            "Some l # replicate k None"] by auto
  show ?thesis
    using assms(1,3) l1 n1 u1 mb
    by (simp add: EmplaceWithoutReallocate_def Vector_of_def plus_ok_def index_ok_def
        std_move_backward_def with_buffer_def)
qed

lemma EmplaceWithoutReallocate_throws:
  assumes "move_throws T l \<or> (\<exists>y\<in>set ms. assign_move_throws T y) \<or> assign_move_throws T x"
  shows "\<exists>v'. EmplaceWithoutReallocate T (Vector_of (ps @ ms @ [l]) (Suc k)) (length ps) (Some x)
              = Throws element_exception v'"
proof -
  let ?buf = "map Some ps @ map Some ms @ Some l # None # replicate k None"
  let ?sz = "length ps + length ms"
  have l1: "live ?buf ?sz" by simp
  have n1: "?buf ! ?sz = Some l" by simp
  have u1: "?buf[Suc ?sz := Some l] = map Some ps @ map Some ms @ Some l # Some l # replicate k None"
    using list_update_length [of "map Some ps @ map Some ms @ [Some l]" None "replicate k None"
            "Some l"] by simp
  show ?thesis
  proof (cases "move_throws T l")
    case True
    then show ?thesis
      using l1 n1
      by (simp add: EmplaceWithoutReallocate_def Vector_of_def plus_ok_def index_ok_def)
  next
    case False
    note nl = this
    show ?thesis
    proof (cases "\<exists>y\<in>set ms. assign_move_throws T y")
      case True
      then obtain buf where "move_backward_loop T
                        (map Some ps @ map Some ms @ Some (moved_from T l) # Some l # replicate k None)
                        (length ps + length ms) (length ms) (Suc (length ps + length ms))
                      = Throws element_exception buf"
        using move_backward_loop_throws [of ms T "map Some ps" "moved_from T l"
            "Some l # replicate k None"] by auto
      then show ?thesis
        using nl l1 n1 u1
        by (simp add: EmplaceWithoutReallocate_def Vector_of_def plus_ok_def index_ok_def
            std_move_backward_def)
    next
      case False
      then have nm: "\<forall>y\<in>set ms. \<not> assign_move_throws T y" by simp
      from False nl assms have tx: "assign_move_throws T x" by simp
      obtain z where mb: "move_backward_loop T
                        (map Some ps @ map Some ms @ Some (moved_from T l) # Some l # replicate k None)
                        (length ps + length ms) (length ms) (Suc (length ps + length ms))
                      = Returns (map Some ps @ Some z # map Some ms @ Some l # replicate k None) ()"
        using move_backward_loop_returns [OF nm, of "map Some ps" "moved_from T l"
            "Some l # replicate k None"] by auto
      show ?thesis
        using nl tx l1 n1 u1 mb
        by (simp add: EmplaceWithoutReallocate_def Vector_of_def plus_ok_def index_ok_def
            std_move_backward_def)
    qed
  qed
qed

lemma EmplaceWithoutReallocate_None:
  "EmplaceWithoutReallocate T v i None = Throws element_exception v"
  by (simp add: EmplaceWithoutReallocate_def)

section \<open>Erase\<close>

lemma Erase_returns:
  assumes "\<forall>y\<in>set ss. \<not> assign_move_throws T y"
  shows "Erase T (Vector_of (ps @ a # ss) k) (length ps)
         = Returns (Vector_of (ps @ ss) (Suc k)) (length ps)"
proof -
  obtain z where ml: "move_loop T (map Some ps @ Some a # map Some ss @ replicate k None)
                        (Suc (length ps)) (length ss) (length ps)
                      = Returns (map Some ps @ map Some ss @ Some z # replicate k None) ()"
    using move_loop_returns [OF assms, of "map Some ps" a "replicate k None"] by auto
  show ?thesis
    using ml
    by (simp add: Erase_def Vector_of_def plus_ok_def index_ok_def std_move_def destroy_at_def
        with_buffer_def)
qed

lemma Erase_throws:
  assumes "\<exists>y\<in>set ss. assign_move_throws T y"
  shows "\<exists>v'. Erase T (Vector_of (ps @ a # ss) k) (length ps) = Throws element_exception v'"
proof -
  obtain buf where ml: "move_loop T (map Some ps @ Some a # map Some ss @ replicate k None)
                        (Suc (length ps)) (length ss) (length ps)
                      = Throws element_exception buf"
    using move_loop_throws [OF assms, of "map Some ps" a "replicate k None"] by auto
  show ?thesis
    using ml
    by (simp add: Erase_def Vector_of_def plus_ok_def index_ok_def std_move_def)
qed

lemma buffer_Vector_of [simp]:
  "buffer_m (data_m (Vector_of xs k)) = map Some xs @ replicate k None"
  by (simp add: Vector_of_def)

lemma Erase_Vector_of:
  "Erase T (Vector_of (ps @ a # ss) k) (length ps)
     = Returns v' r \<longleftrightarrow>
   (\<forall>y\<in>set ss. \<not> assign_move_throws T y) \<and> v' = Vector_of (ps @ ss) (Suc k) \<and> r = length ps"
proof (cases "\<forall>y\<in>set ss. \<not> assign_move_throws T y")
  case True
  then show ?thesis using Erase_returns [OF True, of ps a k] by auto
next
  case False
  then obtain v'' where "Erase T (Vector_of (ps @ a # ss) k) (length ps)
                         = Throws element_exception v''"
    using Erase_throws [of ss T ps a k] by auto
  then show ?thesis using False by simp
qed

section \<open>Emplace on a well-formed vector\<close>

lemma not_transfer_throws:
  "\<forall>y\<in>set xs. \<not> copy_ctor_throws T y \<and> \<not> move_throws T y \<Longrightarrow> \<not> transfer_throws T xs"
  by (auto simp: transfer_throws_def)

lemma Emplace_at_end:
  "size_m v \<le> capacity_m (data_m v) \<Longrightarrow> Emplace T v (size_m v) args = EmplaceBack T v args"
  by (simp add: Emplace_def plus_ok_def)

lemma Emplace_Vector_of_returns:
  assumes i: "i \<le> length xs" and ret: "Emplace T (Vector_of xs k) i args = Returns v' r"
  shows "\<exists>x k'. args = Some x \<and> v' = Vector_of (take i xs @ x # drop i xs) k' \<and> r = i
           \<and> length xs + k \<le> length xs + 1 + k'"
proof (cases "i = length xs")
  case True
  have "EmplaceBack T (Vector_of xs k) args = Returns v' r"
    using ret True by (simp add: Emplace_def plus_ok_def Vector_of_def)
  then show ?thesis
    unfolding EmplaceBack_Vector_of using True growth_gt [of "length xs"]
    by (cases args) (auto split: if_splits)
next
  case False
  with i have ilt: "i < length xs" by simp
  define ps where "ps = take i xs"
  have lps: "length ps = i" using ilt by (simp add: ps_def)
  show ?thesis
  proof (cases k)
    case 0
    define ss where "ss = drop i xs"
    have xs: "xs = ps @ ss" by (simp add: ps_def ss_def)
    have "EmplaceWithReallocate T (Vector_of (ps @ ss) 0) (length ps) args = Returns v' r"
      using ret ilt 0 lps xs by (simp add: Emplace_def plus_ok_def Capacity_def Vector_of_def)
    then have "\<exists>x k'. args = Some x \<and> v' = Vector_of (ps @ x # ss) k' \<and> r = length ps
                 \<and> length ps + length ss \<le> length ps + length ss + 1 + k'"
      unfolding EmplaceWithReallocate_Vector_of
      by (cases args) (auto split: if_splits)
    then show ?thesis
      unfolding 0 using lps by (auto simp: ps_def ss_def)
  next
    case (Suc k')
    from ilt have ne: "xs \<noteq> []" by auto
    define ms where "ms = drop i (butlast xs)"
    have xs: "xs = ps @ ms @ [last xs]"
    proof -
      have "butlast xs = take i (butlast xs) @ ms" by (simp add: ms_def)
      moreover have "take i (butlast xs) = ps"
        using ilt by (simp add: ps_def take_butlast)
      ultimately have "butlast xs = ps @ ms" by simp
      then show ?thesis using ne by (metis append_assoc append_butlast_last_id)
    qed
    have dr: "drop i xs = ms @ [last xs]"
      using xs lps by (metis append_eq_conv_conj)
    have call: "EmplaceWithoutReallocate T (Vector_of (ps @ ms @ [last xs]) (Suc k')) (length ps) args
          = Returns v' r"
      using ret ilt Suc lps xs by (simp add: Emplace_def plus_ok_def Capacity_def Vector_of_def)
    show ?thesis
    proof (cases args)
      case None
      then show ?thesis using call by (simp add: EmplaceWithoutReallocate_None)
    next
      case (Some x)
      show ?thesis
      proof (cases "move_throws T (last xs) \<or> (\<exists>y\<in>set ms. assign_move_throws T y)
                      \<or> assign_move_throws T x")
        case True
        then show ?thesis
          using EmplaceWithoutReallocate_throws [OF True, of ps k'] call Some by auto
      next
        case False
        then have "EmplaceWithoutReallocate T (Vector_of (ps @ ms @ [last xs]) (Suc k'))
                     (length ps) (Some x)
                   = Returns (Vector_of (ps @ x # ms @ [last xs]) k') (length ps)"
          using EmplaceWithoutReallocate_returns [of T "last xs" ms x ps k'] by simp
        then show ?thesis
          using call Some lps dr Suc by (auto simp: ps_def)
      qed
    qed
  qed
qed

lemma Emplace_Vector_of_total:
  assumes i: "i \<le> length xs"
    and alloc: "k = 0 \<longrightarrow> \<not> operator_new_throws T (growth (length xs))"
    and nt: "\<forall>y\<in>set (x # xs). \<not> copy_ctor_throws T y \<and> \<not> move_throws T y
                \<and> \<not> assign_move_throws T y"
  shows "\<exists>v'. Emplace T (Vector_of xs k) i (Some x) = Returns v' i"
proof (cases "i = length xs")
  case True
  have tt: "\<not> transfer_throws T xs" using nt by (intro not_transfer_throws) simp
  have "Emplace T (Vector_of xs k) i (Some x) = EmplaceBack T (Vector_of xs k) (Some x)"
    using True by (simp add: Emplace_def plus_ok_def Vector_of_def)
  then show ?thesis
    unfolding EmplaceBack_Vector_of using True alloc tt by simp
next
  case False
  with i have ilt: "i < length xs" by simp
  define ps where "ps = take i xs"
  have lps: "length ps = i" using ilt by (simp add: ps_def)
  show ?thesis
  proof (cases k)
    case 0
    define ss where "ss = drop i xs"
    have xs: "xs = ps @ ss" by (simp add: ps_def ss_def)
    have t1: "\<not> transfer_throws T ps" and t2: "\<not> transfer_throws T ss"
      using nt xs by (auto intro!: not_transfer_throws)
    have "Emplace T (Vector_of xs 0) i (Some x)
          = EmplaceWithReallocate T (Vector_of (ps @ ss) 0) (length ps) (Some x)"
      using ilt lps xs by (simp add: Emplace_def plus_ok_def Capacity_def Vector_of_def)
    moreover have "length ps + length ss = length xs" using xs by simp
    moreover have "\<not> operator_new_throws T (growth (length xs))" using alloc 0 by simp
    ultimately show ?thesis
      unfolding 0 EmplaceWithReallocate_Vector_of
      using t1 t2 lps by simp
  next
    case (Suc k')
    from ilt have ne: "xs \<noteq> []" by auto
    define ms where "ms = drop i (butlast xs)"
    have xs: "xs = ps @ ms @ [last xs]"
    proof -
      have "butlast xs = take i (butlast xs) @ ms" by (simp add: ms_def)
      moreover have "take i (butlast xs) = ps"
        using ilt by (simp add: ps_def take_butlast)
      ultimately have "butlast xs = ps @ ms" by simp
      then show ?thesis using ne by (metis append_assoc append_butlast_last_id)
    qed
    have inl: "last xs \<in> set xs" using ne by simp
    have inm: "set ms \<subseteq> set xs" using xs by (metis Un_iff set_append subsetI)
    have c: "\<not> move_throws T (last xs)" "\<forall>y\<in>set ms. \<not> assign_move_throws T y"
      "\<not> assign_move_throws T x"
      using nt inl inm by auto
    have "Emplace T (Vector_of xs (Suc k')) i (Some x)
          = EmplaceWithoutReallocate T (Vector_of (ps @ ms @ [last xs]) (Suc k')) (length ps) (Some x)"
      using ilt lps xs by (simp add: Emplace_def plus_ok_def Capacity_def Vector_of_def)
    then show ?thesis
      unfolding Suc using EmplaceWithoutReallocate_returns [OF c, of ps k'] lps by simp
  qed
qed

section \<open>Copy assignment\<close>

lemma length_assigned_prefix [simp]:
  "length xs = length ys \<Longrightarrow> length (assigned_prefix T xs ys) = length ys"
  by (induction T xs ys rule: assigned_prefix.induct) auto

lemma Vector_copy_Vector_of:
  "Vector_copy T (Vector_of ys j)
     = (if ys \<noteq> [] \<and> operator_new_throws T (length ys) then Throws bad_alloc ()
        else if \<exists>y\<in>set ys. copy_ctor_throws T y then Throws element_exception ()
        else Returns () (Vector_of ys 0))"
proof (cases "ys = []")
  case True
  then show ?thesis
    by (simp add: Vector_copy_def RawMemory_ctor_eq Vector_of_def uninitialized_copy_n_def)
next
  case False
  then show ?thesis
    using uninitialized_copy_n_append [of T "[]" ys "replicate j None" "[]" "[]"]
    by (simp add: Vector_copy_def RawMemory_ctor_eq Vector_of_def)
qed

lemma copy_assign_body_grow:
  assumes "length xs + k < length ys"
  shows "copy_assign_body T (Vector_of xs k) (Vector_of ys j)
     = (if operator_new_throws T (length ys) then Throws bad_alloc (Vector_of xs k)
        else if \<exists>y\<in>set ys. copy_ctor_throws T y
        then Throws element_exception (Vector_of xs k)
        else Returns (Vector_of ys 0) ())"
proof -
  from assms have ne: "ys \<noteq> []" by auto
  have gt: "capacity_m (data_m (Vector_of xs k)) < size_m (Vector_of ys j)"
    using assms by (simp add: Vector_of_def)
  have dt: "Vector_dtor (Vector_of xs k) = Some (replicate (length xs) None @ replicate k None)"
    using destroy_n_prefix [of xs "replicate k None"] by (simp add: Vector_dtor_def)
  have sw: "Swap_values (Vector_of xs k) (Vector_of ys 0) = (Vector_of ys 0, Vector_of xs k)"
    by (simp add: Swap_values_def RawMemory_Swap_def Vector_of_def)
  show ?thesis
    using gt ne dt sw by (simp add: copy_assign_body_def Vector_copy_Vector_of)
qed

lemma copy_assign_body_shrink:
  assumes len: "length xs1 = length ys" and ne: "xs2 \<noteq> []"
  shows "copy_assign_body T (Vector_of (xs1 @ xs2) k) (Vector_of ys j)
     = (if \<exists>y\<in>set ys. copy_assign_throws T y
        then Throws element_exception (Vector_of (assigned_prefix T ys xs1 @ xs2) k)
        else Returns (Vector_of ys (length xs2 + k)) ())"
proof -
  have cn: "copy_n T (map Some ys @ replicate j None) 0 (length ys)
              (map Some xs1 @ map Some xs2 @ replicate k None) 0
            = (if \<exists>y\<in>set ys. copy_assign_throws T y
               then Throws element_exception
                      (map Some (assigned_prefix T ys xs1) @ map Some xs2 @ replicate k None)
               else Returns (map Some ys @ map Some xs2 @ replicate k None) (length ys))"
    using copy_n_append [OF len, of T "[]" "replicate j None" "[]"
            "map Some xs2 @ replicate k None"] by simp
  have dn: "destroy_n (map Some ys @ map Some xs2 @ replicate k None) (length ys) (length xs2)
            = Some (map Some ys @ replicate (length xs2) None @ replicate k None)"
    using destroy_n_append [of "map Some ys" xs2 "replicate k None"] by simp
  have lt: "length ys < length xs1 + length xs2" using len ne by simp
  have l2: "length (assigned_prefix T ys xs1) = length ys"
    using len by simp
  show ?thesis
    using len lt cn dn l2
    by (simp add: copy_assign_body_def Vector_of_def with_buffer_def replicate_add
        del: destroy_n.simps copy_n.simps)
qed

lemma copy_assign_body_extend:
  assumes len: "length ys1 = length xs" and fit: "length ys2 \<le> k"
  shows "copy_assign_body T (Vector_of xs k) (Vector_of (ys1 @ ys2) j)
     = (if \<exists>y\<in>set ys1. copy_assign_throws T y
        then Throws element_exception (Vector_of (assigned_prefix T ys1 xs) k)
        else if \<exists>y\<in>set ys2. copy_ctor_throws T y
        then Throws element_exception (Vector_of ys1 k)
        else Returns (Vector_of (ys1 @ ys2) (k - length ys2)) ())"
proof -
  obtain m where k: "k = length ys2 + m" using fit by (metis le_Suc_ex)
  have cn: "copy_n T (map Some ys1 @ map Some ys2 @ replicate j None) 0 (length xs)
              (map Some xs @ replicate (length ys2) None @ replicate m None) 0
            = (if \<exists>y\<in>set ys1. copy_assign_throws T y
               then Throws element_exception
                      (map Some (assigned_prefix T ys1 xs) @ replicate (length ys2) None
                         @ replicate m None)
               else Returns (map Some ys1 @ replicate (length ys2) None @ replicate m None)
                      (length xs))"
    using copy_n_append [OF len [symmetric], of T "[]" "map Some ys2 @ replicate j None" "[]"
            "replicate (length ys2) None @ replicate m None"] len by simp
  have uc: "uninitialized_copy_n T (map Some ys1 @ map Some ys2 @ replicate j None) (length xs)
              (length ys2) (map Some ys1 @ replicate (length ys2) None @ replicate m None)
              (length xs)
            = (if \<exists>y\<in>set ys2. copy_ctor_throws T y
               then Throws element_exception
                      (map Some ys1 @ replicate (length ys2) None @ replicate m None)
               else Returns (map Some ys1 @ map Some ys2 @ replicate m None) ())"
    using uninitialized_copy_n_append [of T "map Some ys1" ys2 "replicate j None" "map Some ys1"
            "replicate m None"] len by simp
  have l2: "length (assigned_prefix T ys1 xs) = length xs"
    using len by simp
  show ?thesis
    unfolding k
    using len cn uc l2
    by (simp add: copy_assign_body_def Vector_of_def with_buffer_def replicate_add
        del: copy_n.simps)
qed

lemma copy_assign_body_reuse:
  assumes fit: "length ys \<le> length xs + k"
  shows "copy_assign_body T (Vector_of xs k) (Vector_of ys j)
     = (if \<exists>y\<in>set (take (length xs) ys). copy_assign_throws T y
        then Throws element_exception
               (Vector_of (assigned_prefix T (take (length xs) ys) (take (length ys) xs)
                             @ drop (length ys) xs) k)
        else if \<exists>y\<in>set (drop (length xs) ys). copy_ctor_throws T y
        then Throws element_exception (Vector_of (take (length xs) ys) k)
        else Returns (Vector_of ys (length xs + k - length ys)) ())"
proof (cases "length ys < length xs")
  case True
  define xs1 where "xs1 = take (length ys) xs"
  define xs2 where "xs2 = drop (length ys) xs"
  have xs: "xs = xs1 @ xs2" by (simp add: xs1_def xs2_def)
  have len: "length xs1 = length ys" using True by (simp add: xs1_def)
  have ne: "xs2 \<noteq> []" using True by (simp add: xs2_def)
  have l: "length xs = length ys + length xs2" using xs len by (metis length_append)
  have "copy_assign_body T (Vector_of (xs1 @ xs2) k) (Vector_of ys j)
     = (if \<exists>y\<in>set ys. copy_assign_throws T y
        then Throws element_exception (Vector_of (assigned_prefix T ys xs1 @ xs2) k)
        else Returns (Vector_of ys (length xs2 + k)) ())"
    by (rule copy_assign_body_shrink [OF len ne])
  moreover have "take (length xs) ys = ys" "drop (length xs) ys = []"
    using True by simp_all
  moreover have "length xs + k - length ys = length xs2 + k" using l by simp
  ultimately show ?thesis
    unfolding xs1_def [symmetric] xs2_def [symmetric] using xs by simp
next
  case False
  define ys1 where "ys1 = take (length xs) ys"
  define ys2 where "ys2 = drop (length xs) ys"
  have ys: "ys = ys1 @ ys2" by (simp add: ys1_def ys2_def)
  have len: "length ys1 = length xs" using False by (simp add: ys1_def)
  have fit2: "length ys2 \<le> k" using fit by (simp add: ys2_def)
  have l: "length ys = length xs + length ys2" using ys len by (metis length_append)
  have "copy_assign_body T (Vector_of xs k) (Vector_of (ys1 @ ys2) j)
     = (if \<exists>y\<in>set ys1. copy_assign_throws T y
        then Throws element_exception (Vector_of (assigned_prefix T ys1 xs) k)
        else if \<exists>y\<in>set ys2. copy_ctor_throws T y
        then Throws element_exception (Vector_of ys1 k)
        else Returns (Vector_of (ys1 @ ys2) (k - length ys2)) ())"
    by (rule copy_assign_body_extend [OF len fit2])
  moreover have "take (length ys) xs = xs" "drop (length ys) xs = []"
    using False by simp_all
  moreover have "length xs + k - length ys = k - length ys2" using l by simp
  ultimately show ?thesis
    unfolding ys1_def [symmetric] ys2_def [symmetric] using ys by simp
qed

section \<open>Size and capacity after each operation\<close>

text \<open>
  Size and capacity of the vector an operation returns or leaves behind when it throws,
  for any vector with \<open>size \<le> capacity\<close>.
\<close>

lemma leave_scope_Returns:
  "leave_scope out = Returns v r \<longleftrightarrow> (\<exists>nd. out = Returns (v, nd) r)"
  by (cases out rule: leave_scope.cases) auto

lemma leave_scope_Throws:
  "leave_scope out = Throws e v \<longleftrightarrow> (\<exists>nd. out = Throws e (v, nd))"
  by (cases out rule: leave_scope.cases) auto

lemma slc_default: "size_le_capacity Vector_default"
  by (simp add: size_le_capacity_def Size_def Capacity_def Vector_default_def RawMemory_default_def)

lemma slc_sized: "Vector_sized T n = Returns u v' \<Longrightarrow> size_le_capacity v'"
  by (auto simp: Vector_sized_def RawMemory_ctor_eq size_le_capacity_def Size_def Capacity_def
      split: option.splits outcome.splits if_splits)

lemma slc_copy: "Vector_copy T v = Returns u v' \<Longrightarrow> size_le_capacity v'"
  by (auto simp: Vector_copy_def RawMemory_ctor_eq size_le_capacity_def Size_def Capacity_def
      split: option.splits outcome.splits if_splits)

lemma slc_move:
  "size_le_capacity v \<Longrightarrow>
   size_le_capacity (fst (Vector_move v)) \<and> size_le_capacity (snd (Vector_move v))"
  by (simp add: Vector_move_def RawMemory_Init_def size_le_capacity_def Size_def Capacity_def)

lemma slc_copy_assign_body:
  "size_le_capacity v \<Longrightarrow>
   copy_assign_body T v rhs = Returns v' u \<or> copy_assign_body T v rhs = Throws e v' \<Longrightarrow>
   size_le_capacity v'"
  by (auto simp: copy_assign_body_def Vector_copy_def RawMemory_ctor_eq Swap_values_def
      RawMemory_Swap_def with_buffer_def size_le_capacity_def Size_def Capacity_def Let_def
      split: option.splits outcome.splits if_splits)

lemma slc_copy_assign:
  "\<forall>c. size_le_capacity (st c) \<Longrightarrow>
   copy_assign T st a b = Returns st' u \<or> copy_assign T st a b = Throws e st' \<Longrightarrow>
   size_le_capacity (st' c)"
  using slc_copy_assign_body [of "st a" T "st b"]
  by (auto simp: copy_assign_def split: outcome.splits if_splits)

lemma slc_move_assign:
  "\<forall>c. size_le_capacity (st c) \<Longrightarrow> size_le_capacity (move_assign st a b c)"
  by (simp add: move_assign_def RawMemory_Init_def size_le_capacity_def Size_def Capacity_def)

lemma slc_Swap:
  "\<forall>c. size_le_capacity (st c) \<Longrightarrow> size_le_capacity (Swap st a b c)"
  by (simp add: Swap_def Swap_values_def RawMemory_Swap_def size_le_capacity_def Size_def
      Capacity_def)

lemma Reserve_cases:
  "Reserve T v n = Returns v' u \<or> Reserve T v n = Throws e v' \<Longrightarrow>
   size_m v' = size_m v \<and> capacity_m (data_m v) \<le> capacity_m (data_m v')
   \<and> (Reserve T v n = Returns v' u \<longrightarrow> n \<le> capacity_m (data_m v'))"
  by (auto simp: Reserve_def RawMemory_ctor_eq RawMemory_Swap_def with_buffer_def
      leave_scope_Returns leave_scope_Throws
      split: option.splits outcome.splits if_splits prod.splits)

lemma slc_Reserve:
  "size_le_capacity v \<Longrightarrow>
   Reserve T v n = Returns v' u \<or> Reserve T v n = Throws e v' \<Longrightarrow> size_le_capacity v'"
  using Reserve_cases [of T v n v' u e] by (auto simp: size_le_capacity_def Size_def Capacity_def)

lemma Reserve_Returns:
  "Reserve T v n = Returns v' u \<Longrightarrow>
   size_m v' = size_m v \<and> capacity_m (data_m v) \<le> capacity_m (data_m v')
   \<and> n \<le> capacity_m (data_m v')"
  using Reserve_cases [of T v n v' u] by simp

lemma Reserve_Throws:
  "Reserve T v n = Throws e v' \<Longrightarrow>
   size_m v' = size_m v \<and> capacity_m (data_m v) \<le> capacity_m (data_m v')"
  using Reserve_cases [of T v n v' _ e] by simp

lemma slc_Resize:
  "size_le_capacity v \<Longrightarrow>
   Resize T v n = Returns v' u \<or> Resize T v n = Throws e v' \<Longrightarrow> size_le_capacity v'"
  by (auto simp: Resize_def with_buffer_def size_le_capacity_def Size_def Capacity_def
      split: option.splits outcome.splits if_splits dest!: Reserve_Returns Reserve_Throws)

lemma EmplaceBack_realloc_Returns:
  "EmplaceBack_realloc T v nd args = Returns (v', nd') r \<Longrightarrow>
   size_m v' = size_m v + 1 \<and> capacity_m (data_m v') = capacity_m nd
   \<and> size_m v < capacity_m nd"
  unfolding EmplaceBack_realloc_def
  by (cases args; cases "SafeMove T (buffer_m (data_m v)) 0 (size_m v)
                 ((buffer_m nd)[size_m v := Some (the args)]) 0")
     (auto simp: RawMemory_Swap_def index_ok_def split: if_splits)

lemma EmplaceBack_realloc_Throws:
  "EmplaceBack_realloc T v nd args = Throws e (v', nd') \<Longrightarrow>
   size_m v' = size_m v \<and> capacity_m (data_m v') = capacity_m (data_m v)"
  unfolding EmplaceBack_realloc_def
  by (cases args; cases "SafeMove T (buffer_m (data_m v)) 0 (size_m v)
                 ((buffer_m nd)[size_m v := Some (the args)]) 0")
     (auto simp: RawMemory_Swap_def index_ok_def with_buffer_def split: if_splits)


lemma EmplaceBack_Returns:
  assumes "EmplaceBack T v args = Returns v' r"
  shows "size_m v' = size_m v + 1 \<and> capacity_m (data_m v) \<le> capacity_m (data_m v')
         \<and> (size_m v = capacity_m (data_m v) \<longrightarrow> size_m v < capacity_m (data_m v'))"
proof (cases "size_m v = Capacity v")
  case True
  let ?n = "if size_m v = 0 then 1 else size_m v * 2"
  from assms True obtain nd where nd: "RawMemory_ctor T ?n = Some nd"
    by (auto simp: EmplaceBack_def split: option.splits)
  with assms True obtain nd' where "EmplaceBack_realloc T v nd args = Returns (v', nd') r"
    by (auto simp: EmplaceBack_def leave_scope_Returns)
  from EmplaceBack_realloc_Returns [OF this] nd True show ?thesis
    by (auto simp: RawMemory_ctor_eq Capacity_def split: if_splits)
next
  case False
  with assms show ?thesis
    by (cases args) (auto simp: EmplaceBack_def with_buffer_def Capacity_def split: if_splits)
qed

lemma EmplaceBack_Throws:
  assumes "EmplaceBack T v args = Throws e v'"
  shows "size_m v' = size_m v \<and> capacity_m (data_m v') = capacity_m (data_m v)"
proof (cases "size_m v = Capacity v")
  case True
  let ?n = "if size_m v = 0 then 1 else size_m v * 2"
  show ?thesis
  proof (cases "RawMemory_ctor T ?n")
    case None
    with assms True show ?thesis by (simp add: EmplaceBack_def)
  next
    case (Some nd)
    with assms True obtain nd' where "EmplaceBack_realloc T v nd args = Throws e (v', nd')"
      by (auto simp: EmplaceBack_def leave_scope_Throws)
    from EmplaceBack_realloc_Throws [OF this] show ?thesis .
  qed
next
  case False
  with assms show ?thesis
    by (cases args) (auto simp: EmplaceBack_def split: if_splits)
qed

lemma slc_EmplaceBack:
  "size_le_capacity v \<Longrightarrow>
   EmplaceBack T v args = Returns v' r \<or> EmplaceBack T v args = Throws e v' \<Longrightarrow>
   size_le_capacity v'"
  using EmplaceBack_Returns [of T v args v' r] EmplaceBack_Throws [of T v args e v']
  by (auto simp: size_le_capacity_def Size_def Capacity_def)

lemma slc_PopBack:
  "size_le_capacity v \<Longrightarrow> PopBack v = Returns v' u \<or> PopBack v = Throws e v' \<Longrightarrow>
   size_le_capacity v'"
  by (cases "destroy_at (buffer_m (data_m v)) (size_m v - 1)")
     (auto simp: PopBack_def with_buffer_def size_le_capacity_def Size_def Capacity_def
      split: if_splits)

lemma EmplaceWithReallocate_body_sizes:
  assumes "EmplaceWithReallocate_body T v nd i args = out"
  shows "(\<forall>v' nd' r. out = Returns (v', nd') r \<longrightarrow>
            size_m v' = size_m v + 1 \<and> capacity_m (data_m v') = capacity_m nd
            \<and> i < capacity_m nd \<and> i \<le> size_m v)
       \<and> (\<forall>e v' nd'. out = Throws e (v', nd') \<longrightarrow>
            size_m v' = size_m v \<and> capacity_m (data_m v') = capacity_m (data_m v))"
proof (cases args)
  case None
  with assms show ?thesis
    by (auto simp: EmplaceWithReallocate_body_def split: if_splits)
next
  case (Some x)
  let ?s1 = "SafeMove T (buffer_m (data_m v)) 0 i ((buffer_m nd)[i := Some x]) 0"
  show ?thesis
  proof (cases ?s1)
    case (Aborts f)
    with assms Some show ?thesis
      by (auto simp: EmplaceWithReallocate_body_def split: if_splits)
  next
    case (Throws e sd)
    obtain src1 dst1 where sd: "sd = (src1, dst1)" by (cases sd)
    from assms Some Throws sd show ?thesis
      by (cases "destroy_at dst1 i")
         (auto simp: EmplaceWithReallocate_body_def with_buffer_def split: if_splits)
  next
    case (Returns sd u)
    obtain src1 dst1 where sd: "sd = (src1, dst1)" by (cases sd)
    let ?s2 = "SafeMove T src1 i (size_m v - i) dst1 (i + 1)"
    show ?thesis
    proof (cases ?s2)
      case (Aborts f)
      with assms Some Returns sd show ?thesis
        by (auto simp: EmplaceWithReallocate_body_def split: if_splits)
    next
      case t2: (Throws e sd2)
      obtain src2 dst2 where sd2: "sd2 = (src2, dst2)" by (cases sd2)
      from assms Some Returns sd t2 sd2 show ?thesis
        by (cases "destroy_n dst2 0 (i + 1)")
           (auto simp: EmplaceWithReallocate_body_def with_buffer_def split: if_splits)
    next
      case r2: (Returns sd2 u2)
      obtain src2 dst2 where sd2: "sd2 = (src2, dst2)" by (cases sd2)
      from assms Some Returns sd r2 sd2 show ?thesis
        by (auto simp: EmplaceWithReallocate_body_def RawMemory_Swap_def plus_ok_def
            split: if_splits)
    qed
  qed
qed

lemma EmplaceWithReallocate_Returns:
  assumes "EmplaceWithReallocate T v i args = Returns v' r"
  shows "size_m v' = size_m v + 1 \<and> size_m v < capacity_m (data_m v')"
proof -
  let ?n = "if size_m v = 0 then 1 else size_m v * 2"
  from assms obtain nd where nd: "RawMemory_ctor T ?n = Some nd"
    by (auto simp: EmplaceWithReallocate_def split: option.splits)
  with assms obtain nd' where "EmplaceWithReallocate_body T v nd i args = Returns (v', nd') r"
    by (auto simp: EmplaceWithReallocate_def leave_scope_Returns)
  from EmplaceWithReallocate_body_sizes [OF this] nd show ?thesis
    by (auto simp: RawMemory_ctor_eq split: if_splits)
qed

lemma EmplaceWithReallocate_Throws:
  assumes "EmplaceWithReallocate T v i args = Throws e v'"
  shows "size_m v' = size_m v \<and> capacity_m (data_m v') = capacity_m (data_m v)"
proof -
  let ?n = "if size_m v = 0 then 1 else size_m v * 2"
  show ?thesis
  proof (cases "RawMemory_ctor T ?n")
    case None
    with assms show ?thesis by (simp add: EmplaceWithReallocate_def)
  next
    case (Some nd)
    with assms obtain nd' where "EmplaceWithReallocate_body T v nd i args = Throws e (v', nd')"
      by (auto simp: EmplaceWithReallocate_def leave_scope_Throws)
    from EmplaceWithReallocate_body_sizes [OF this] show ?thesis by simp
  qed
qed

lemma EmplaceWithoutReallocate_sizes:
  assumes "EmplaceWithoutReallocate T v i args = out"
  shows "(\<forall>v' r. out = Returns v' r \<longrightarrow>
            size_m v' = size_m v + 1 \<and> capacity_m (data_m v') = capacity_m (data_m v))
       \<and> (\<forall>e v'. out = Throws e v' \<longrightarrow>
            size_m v' = size_m v \<and> capacity_m (data_m v') = capacity_m (data_m v))"
proof (cases args)
  case None
  with assms show ?thesis by (auto simp: EmplaceWithoutReallocate_def)
next
  case (Some temp)
  let ?buf = "buffer_m (data_m v)"
  let ?mb = "std_move_backward T
               (?buf[size_m v := ?buf ! (size_m v - 1),
                     size_m v - 1 := Some (moved_from T (the (?buf ! (size_m v - 1))))])
               (0 + i) (size_m v - 1) (size_m v)"
  from assms Some show ?thesis
    by (cases ?mb)
       (auto simp: EmplaceWithoutReallocate_def with_buffer_def Let_def split: if_splits)
qed

lemma slc_Emplace:
  assumes slc: "size_le_capacity v"
    and out: "Emplace T v i args = Returns v' r \<or> Emplace T v i args = Throws e v'"
  shows "size_le_capacity v'"
proof -
  from slc have le: "size_m v \<le> capacity_m (data_m v)"
    by (simp add: size_le_capacity_def Size_def Capacity_def)
  consider (at_end) "i = size_m v"
    | (realloc) "i \<noteq> size_m v" "size_m v = capacity_m (data_m v)"
    | (inplace) "i \<noteq> size_m v" "size_m v \<noteq> capacity_m (data_m v)"
    by blast
  then show ?thesis
  proof cases
    case at_end
    with out le have "EmplaceBack T v args = Returns v' r \<or> EmplaceBack T v args = Throws e v'"
      by (simp add: Emplace_def plus_ok_def)
    with slc show ?thesis by (rule slc_EmplaceBack)
  next
    case realloc
    with out le have "EmplaceWithReallocate T v i args = Returns v' r
                      \<or> EmplaceWithReallocate T v i args = Throws e v'"
      by (simp add: Emplace_def plus_ok_def Capacity_def)
    then show ?thesis
      using EmplaceWithReallocate_Returns [of T v i args v' r]
        EmplaceWithReallocate_Throws [of T v i args e v'] le
      by (auto simp: size_le_capacity_def Size_def Capacity_def)
  next
    case inplace
    with out le have "EmplaceWithoutReallocate T v i args = Returns v' r
                      \<or> EmplaceWithoutReallocate T v i args = Throws e v'"
      by (simp add: Emplace_def plus_ok_def Capacity_def)
    then show ?thesis
      using EmplaceWithoutReallocate_sizes [OF refl, of T v i args] le inplace
      by (auto simp: size_le_capacity_def Size_def Capacity_def)
  qed
qed

lemma slc_Erase:
  assumes slc: "size_le_capacity v"
    and out: "Erase T v i = Returns v' r \<or> Erase T v i = Throws e v'"
  shows "size_le_capacity v'"
proof (cases "std_move T (buffer_m (data_m v)) (i + 1) (size_m v) i")
  case (Aborts f)
  with out show ?thesis by (auto simp: Erase_def split: if_splits)
next
  case (Throws e' buf)
  with out slc show ?thesis
    by (auto simp: Erase_def with_buffer_def size_le_capacity_def Size_def Capacity_def
        split: if_splits)
next
  case (Returns buf u)
  with out slc show ?thesis
    by (cases "destroy_at buf (size_m v - 1)")
       (auto simp: Erase_def with_buffer_def size_le_capacity_def Size_def Capacity_def
        split: if_splits)
qed

section \<open>Reallocating insertion, every outcome\<close>



section \<open>Appending, for any constructor call\<close>

lemma EmplaceBack_capacity_args:
  assumes wf: "wf_Vector v"
  shows "(Size v = Capacity v \<and> EmplaceBack T v args = Returns v' r \<longrightarrow>
            Capacity v' = max 1 (Size v * 2) \<and> (Capacity v = 0 \<longrightarrow> Capacity v' = 1)
            \<and> 2 * Capacity v \<le> Capacity v')
       \<and> (Size v = Capacity v \<and> \<not> operator_new_throws T (max 1 (Size v * 2))
            \<and> \<not> transfer_throws T (elements v) \<longrightarrow>
            (\<exists>v''. EmplaceBack T v (Some x) = Returns v'' (Size v)
                  \<and> elements v'' = elements v @ [x]))
       \<and> (EmplaceBack T v args = Returns v' r \<or> EmplaceBack T v args = Throws e v' \<longrightarrow>
            Capacity v \<le> Capacity v')
       \<and> (Size v < Capacity v \<longrightarrow>
            (\<exists>v''. EmplaceBack T v (Some x) = Returns v'' (Size v)
                  \<and> buffer_m (data_m v'') = (buffer_m (data_m v))[Size v := Some x]
                  \<and> elements v'' = elements v @ [x]
                  \<and> Capacity v'' = Capacity v \<and> Size v'' = Size v + 1))"
proof -
  obtain xs k where v: "v = Vector_of xs k" using wf by (rule wf_VectorE)
  have m: "max (Suc 0) (length xs * 2) = growth (length xs)"
    "Suc (growth (length xs) - Suc 0) = growth (length xs)"
    by (cases xs; simp add: growth_def max_def)+
  have g: "length xs * 2 \<le> growth (length xs)" "growth 0 = 1"
    "length xs + (growth (length xs) - length xs - 1) = growth (length xs) - 1"
    by (cases xs; simp add: growth_def)+
  show ?thesis
  proof (cases k)
    case 0
    show ?thesis
      unfolding v 0 EmplaceBack_Vector_of
      using g by (cases args) (auto simp: Size_def m split: if_splits)
  next
    case (Suc k')
    have "(map Some xs @ None # replicate k' None)[length xs := Some x]
          = map Some xs @ Some x # replicate k' None" by simp
    then have b: "buffer_m (data_m (Vector_of (xs @ [x]) k'))
          = (buffer_m (data_m (Vector_of xs (Suc k'))))[length xs := Some x]"
      by (simp add: Vector_of_def)
    show ?thesis
      unfolding v Suc EmplaceBack_Vector_of
      using b by (cases args) (auto simp: Size_def split: if_splits)
  qed
qed

section \<open>The claims\<close>




text \<open>
  What the amended statement leaves out.  In \<open>EmplaceWithReallocate\<close> the transfer of the
  prefix has destroyed its sources when the transfer of the suffix starts, so a copy
  that throws there leaves the slots \<open>[0, i)\<close> of the vector without objects, with
  \<open>size_\<close> unchanged.  In \<open>EmplaceBack\<close> no handler destroys the new element: the block
  released during unwinding still holds it.
\<close>

lemma suffix_transfer_throws_example:
  "Emplace throwing_copy (Vector_of [1, 13, 3] 0) 1 (Some 7)
     = Throws element_exception
         \<lparr>data_m = \<lparr>buffer_m = [None, Some 13, Some 3], capacity_m = 3\<rparr>, size_m = 3\<rparr>
   \<and> \<not> wf_Vector \<lparr>data_m = \<lparr>buffer_m = [None, Some 13, Some (3 :: nat)], capacity_m = 3\<rparr>,
                   size_m = 3\<rparr>"
proof -
  have "Emplace throwing_copy (Vector_of [1, 13, 3] 0) 1 (Some 7)
     = Throws element_exception
         \<lparr>data_m = \<lparr>buffer_m = [None, Some 13, Some 3], capacity_m = 3\<rparr>, size_m = 3\<rparr>"
    by code_simp
  then show ?thesis by (simp add: wf_Vector_def)
qed

lemma append_transfer_throws_example:
  "EmplaceBack_realloc throwing_copy (Vector_of [1, 13] 0)
     \<lparr>buffer_m = replicate 4 None, capacity_m = 4\<rparr> (Some 7)
     = Throws element_exception
         (Vector_of [1, 13] 0, \<lparr>buffer_m = [None, None, Some 7, None], capacity_m = 4\<rparr>)"
  by code_simp

text \<open>
  C2.  Let the vector be well formed and \<open>i \<le> size\<close>.  An \<open>Emplace\<close> at \<open>begin() + i\<close> that
  returns leaves \<open>size + 1\<close> elements: the elements \<open>[0, i)\<close> are the former ones, the
  elements \<open>[i + 1, size + 1)\<close> are the former \<open>[i, size)\<close>, the element at \<open>i\<close> is the one
  constructed from the arguments; it returns index \<open>i\<close> and the vector is well formed.
  The same holds for both overloads of \<open>Insert\<close>, with the value inserted.  \<open>Emplace\<close> and
  both overloads of \<open>Insert\<close> do return, with that result, when no constructor or move
  assignment throws on the new value or on an element and, in case \<open>size = capacity\<close>, the
  allocation of the new block does not throw; with \<open>size < capacity\<close> nothing is
  allocated.  At \<open>end()\<close>, \<open>Emplace\<close> is \<open>EmplaceBack\<close>, whatever the outcome.
\<close>

theorem Emplace_inserts:
  assumes wf: "wf_Vector v" and i: "i \<le> Size v"
  shows "(Emplace T v i args = Returns v' r \<longrightarrow>
            (\<exists>x. args = Some x \<and> elements v' ! i = x)
            \<and> Size v' = Size v + 1
            \<and> take i (elements v') = take i (elements v)
            \<and> drop (i + 1) (elements v') = drop i (elements v)
            \<and> r = i \<and> wf_Vector v')
       \<and> (Insert_copy T v i val = Returns v' r \<or> Insert_move T v i val = Returns v' r \<longrightarrow>
            elements v' = take i (elements v) @ val # drop i (elements v) \<and> r = i
            \<and> Size v' = Size v + 1 \<and> wf_Vector v')
       \<and> ((Size v = Capacity v \<longrightarrow> \<not> operator_new_throws T (max 1 (Size v * 2)))
            \<and> (\<forall>y\<in>set (x # elements v).
                  \<not> copy_ctor_throws T y \<and> \<not> move_throws T y \<and> \<not> assign_move_throws T y) \<longrightarrow>
            (\<exists>v''. Emplace T v i (Some x) = Returns v'' i
                  \<and> elements v'' = take i (elements v) @ x # drop i (elements v))
            \<and> (\<exists>v''. Insert_copy T v i x = Returns v'' i
                  \<and> elements v'' = take i (elements v) @ x # drop i (elements v))
            \<and> (\<exists>v''. Insert_move T v i x = Returns v'' i
                  \<and> elements v'' = take i (elements v) @ x # drop i (elements v)))
       \<and> Emplace T v (Size v) args = EmplaceBack T v args"
proof -
  obtain xs k where v: "v = Vector_of xs k" using wf by (rule wf_VectorE)
  from i have il: "i \<le> length xs" by (simp add: v Size_def)
  have m: "max (Suc 0) (length xs * 2) = growth (length xs)"
    by (cases xs; simp add: growth_def max_def)
  have full: "Size v = Capacity v \<longleftrightarrow> k = 0" by (simp add: v Size_def)
  have ins: "take i (take i xs @ y # drop i xs) = take i xs"
    "drop (Suc i) (take i xs @ y # drop i xs) = drop i xs"
    "(take i xs @ y # drop i xs) ! i = y" for y
    using il by (simp_all add: nth_append)
  have a: "(\<exists>x. args = Some x \<and> elements v' ! i = x)
            \<and> Size v' = Size v + 1
            \<and> take i (elements v') = take i (elements v)
            \<and> drop (i + 1) (elements v') = drop i (elements v)
            \<and> r = i \<and> wf_Vector v'"
    if "Emplace T v i args = Returns v' r"
    using Emplace_Vector_of_returns [OF il that [unfolded v]] ins il
    by (auto simp: v Size_def)
  have b: "elements v' = take i (elements v) @ val # drop i (elements v) \<and> r = i
            \<and> Size v' = Size v + 1 \<and> wf_Vector v'"
    if "Insert_copy T v i val = Returns v' r \<or> Insert_move T v i val = Returns v' r"
  proof -
    from that obtain args where r: "Emplace T v i args = Returns v' r"
      and args: "args = None \<or> args = Some val"
      by (auto simp: Insert_copy_def Insert_move_def copy_construct_def move_construct_def
          split: if_splits)
    show ?thesis
      using Emplace_Vector_of_returns [OF il r [unfolded v]] args il
      by (auto simp: v Size_def)
  qed
  have c: "(\<exists>v''. Emplace T v i (Some x) = Returns v'' i
                  \<and> elements v'' = take i (elements v) @ x # drop i (elements v))
            \<and> (\<exists>v''. Insert_copy T v i x = Returns v'' i
                  \<and> elements v'' = take i (elements v) @ x # drop i (elements v))
            \<and> (\<exists>v''. Insert_move T v i x = Returns v'' i
                  \<and> elements v'' = take i (elements v) @ x # drop i (elements v))"
    if alloc: "Size v = Capacity v \<longrightarrow> \<not> operator_new_throws T (max 1 (Size v * 2))"
      and nt: "\<forall>y\<in>set (x # elements v).
         \<not> copy_ctor_throws T y \<and> \<not> move_throws T y \<and> \<not> assign_move_throws T y"
  proof -
    have "k = 0 \<longrightarrow> \<not> operator_new_throws T (growth (length xs))"
      using alloc full by (simp add: v Size_def m)
    moreover have "\<forall>y\<in>set (x # xs).
         \<not> copy_ctor_throws T y \<and> \<not> move_throws T y \<and> \<not> assign_move_throws T y"
      using nt by (simp add: v)
    ultimately obtain v'' where r: "Emplace T v i (Some x) = Returns v'' i"
      using Emplace_Vector_of_total [OF il, of k T x] unfolding v by blast
    have e: "elements v'' = take i (elements v) @ x # drop i (elements v)"
      using Emplace_Vector_of_returns [OF il r [unfolded v]] by (auto simp: v)
    have "copy_construct T x = Some x" "move_construct T x = Some x"
      using nt by (simp_all add: copy_construct_def move_construct_def)
    then have "Insert_copy T v i x = Returns v'' i" "Insert_move T v i x = Returns v'' i"
      using r by (simp_all add: Insert_copy_def Insert_move_def)
    with r e show ?thesis by blast
  qed
  have d: "Emplace T v (Size v) args = EmplaceBack T v args"
    unfolding Size_def by (rule Emplace_at_end) (simp add: v Vector_of_def)
  show ?thesis using a b c d by blast
qed

text \<open>
  The theorem on the full vector \<open>[1, 2, 3]\<close>, inserting 99 at index 1 by \<open>Emplace\<close> and by
  both overloads of \<open>Insert\<close> (with reallocation); on the resulting vector, inserting 7
  at index 0 (without); and on \<open>[1, 2]\<close> with a free slot, where the insertion returns
  although every allocation would fail.
\<close>

theorem Emplace_inserts_witness:
  "wf_Vector (Vector_of [1, 2, 3 :: nat] 0) \<and> 1 \<le> Size (Vector_of [1, 2, 3 :: nat] 0)
   \<and> Emplace int_like (Vector_of [1, 2, 3] 0) 1 (Some 99) = Returns (Vector_of [1, 99, 2, 3] 2) 1
   \<and> Insert_copy int_like (Vector_of [1, 2, 3] 0) 1 99 = Returns (Vector_of [1, 99, 2, 3] 2) 1
   \<and> Insert_move int_like (Vector_of [1, 2, 3] 0) 1 99 = Returns (Vector_of [1, 99, 2, 3] 2) 1
   \<and> drop (1 + 1) (elements (Vector_of [1, 99, 2, 3 :: nat] 2))
       = drop 1 (elements (Vector_of [1, 2, 3 :: nat] 0))
   \<and> elements (Vector_of [1, 99, 2, 3 :: nat] 2)
       = take 1 (elements (Vector_of [1, 2, 3 :: nat] 0)) @ 99
           # drop 1 (elements (Vector_of [1, 2, 3 :: nat] 0))
   \<and> Emplace int_like (Vector_of [1, 99, 2, 3] 2) 0 (Some 7)
       = Returns (Vector_of [7, 1, 99, 2, 3] 1) 0
   \<and> drop (0 + 1) (elements (Vector_of [7, 1, 99, 2, 3 :: nat] 1))
       = drop 0 (elements (Vector_of [1, 99, 2, 3 :: nat] 2))
   \<and> Size (Vector_of [1, 2 :: nat] 1) \<noteq> Capacity (Vector_of [1, 2 :: nat] 1)
   \<and> (\<exists>v''. Insert_move int_like_no_memory (Vector_of [1, 2] 1) 0 7 = Returns v'' 0
          \<and> elements v'' = take 0 (elements (Vector_of [1, 2 :: nat] 1)) @ 7
              # drop 0 (elements (Vector_of [1, 2 :: nat] 1)))"
proof -
  have wf: "wf_Vector (Vector_of [1, 2, 3 :: nat] 0)" "wf_Vector (Vector_of [1, 99, 2, 3 :: nat] 2)"
    "wf_Vector (Vector_of [1, 2 :: nat] 1)"
    by simp_all
  have i: "1 \<le> Size (Vector_of [1, 2, 3 :: nat] 0)" "0 \<le> Size (Vector_of [1, 99, 2, 3 :: nat] 2)"
    "0 \<le> Size (Vector_of [1, 2 :: nat] 1)"
    by (simp_all add: Size_def)
  have run1: "Emplace int_like (Vector_of [1, 2, 3] 0) 1 (Some 99)
              = Returns (Vector_of [1, 99, 2, 3] 2) 1"
    by code_simp
  have run2: "Emplace int_like (Vector_of [1, 99, 2, 3] 2) 0 (Some 7)
              = Returns (Vector_of [7, 1, 99, 2, 3] 1) 0"
    by code_simp
  have run3: "Insert_copy int_like (Vector_of [1, 2, 3] 0) 1 99
              = Returns (Vector_of [1, 99, 2, 3] 2) 1"
    "Insert_move int_like (Vector_of [1, 2, 3] 0) 1 99 = Returns (Vector_of [1, 99, 2, 3] 2) 1"
    by code_simp+
  have room: "Size (Vector_of [1, 2 :: nat] 1) \<noteq> Capacity (Vector_of [1, 2 :: nat] 1)"
    by (simp add: Size_def)
  have nt: "\<forall>y\<in>set (7 # elements (Vector_of [1, 2 :: nat] 1)).
      \<not> copy_ctor_throws int_like_no_memory y \<and> \<not> move_throws int_like_no_memory y
      \<and> \<not> assign_move_throws int_like_no_memory y"
    by (simp add: int_like_no_memory_def int_like_def move_throws_def assign_move_throws_def)
  from Emplace_inserts [OF wf(1) i(1), of int_like "Some 99" "Vector_of [1, 99, 2, 3] 2" 1] run1
  have 1: "drop (1 + 1) (elements (Vector_of [1, 99, 2, 3 :: nat] 2))
           = drop 1 (elements (Vector_of [1, 2, 3 :: nat] 0))"
    by blast
  from Emplace_inserts [OF wf(1) i(1), where T = int_like and val = 99
      and v' = "Vector_of [1, 99, 2, 3] 2" and r = 1] run3(1)
  have 2: "elements (Vector_of [1, 99, 2, 3 :: nat] 2)
       = take 1 (elements (Vector_of [1, 2, 3 :: nat] 0)) @ 99
           # drop 1 (elements (Vector_of [1, 2, 3 :: nat] 0))"
    by blast
  from Emplace_inserts [OF wf(2) i(2), of int_like "Some 7" "Vector_of [7, 1, 99, 2, 3] 1" 0] run2
  have 3: "drop (0 + 1) (elements (Vector_of [7, 1, 99, 2, 3 :: nat] 1))
           = drop 0 (elements (Vector_of [1, 99, 2, 3 :: nat] 2))"
    by blast
  from Emplace_inserts [OF wf(3) i(3), where T = int_like_no_memory and x = 7] room nt
  have 4: "\<exists>v''. Insert_move int_like_no_memory (Vector_of [1, 2] 1) 0 7 = Returns v'' 0
          \<and> elements v'' = take 0 (elements (Vector_of [1, 2 :: nat] 1)) @ 7
              # drop 0 (elements (Vector_of [1, 2 :: nat] 1))"
    by blast
  show ?thesis using wf i run1 run2 run3 room 1 2 3 4 by blast
qed

text \<open>
  C3.  Copy assignment \<open>a = b\<close> between two distinct well-formed objects, \<open>a\<close> at address
  \<open>this\<close> and \<open>b\<close> at \<open>rhs\<close>.  When it returns, \<open>a\<close> has the size and the elements of \<open>b\<close>
  and is well formed, and every other object, \<open>b\<close> among them, is unchanged.
  If the size of \<open>b\<close> exceeds the capacity of \<open>a\<close>, a copy of \<open>b\<close> is built and swapped
  in: when the allocation or a copy construction throws, the store is exactly as
  before; otherwise \<open>a\<close> owns a block of capacity \<open>size b\<close>.
  Otherwise the block of \<open>a\<close> is reused: the first \<open>min (size a) (size b)\<close> elements of
  \<open>b\<close> are copy assigned, the elements of \<open>b\<close> from \<open>size a\<close> on are copy constructed; the
  call throws exactly when one of these throws, and otherwise \<open>a\<close> keeps its capacity,
  holds the elements of \<open>b\<close>, and its slots from \<open>size b\<close> on hold no object.
\<close>

theorem copy_assignment:
  assumes wfa: "wf_Vector (st this)" and wfb: "wf_Vector (st rhs)" and ne: "this \<noteq> rhs"
  shows "(copy_assign T st this rhs = Returns st' u \<longrightarrow>
            Size (st' this) = Size (st rhs) \<and> elements (st' this) = elements (st rhs)
            \<and> wf_Vector (st' this) \<and> (\<forall>c. c \<noteq> this \<longrightarrow> st' c = st c))
       \<and> (Capacity (st this) < Size (st rhs) \<longrightarrow>
            copy_assign T st this rhs
              = (if operator_new_throws T (Size (st rhs)) then Throws bad_alloc st
                 else if \<exists>y\<in>set (elements (st rhs)). copy_ctor_throws T y
                 then Throws element_exception st
                 else Returns (st(this := Vector_of (elements (st rhs)) 0)) ()))
       \<and> (Size (st rhs) \<le> Capacity (st this) \<longrightarrow>
            (if (\<exists>y\<in>set (take (min (Size (st this)) (Size (st rhs))) (elements (st rhs))).
                    copy_assign_throws T y)
                \<or> (\<exists>y\<in>set (drop (Size (st this)) (elements (st rhs))). copy_ctor_throws T y)
             then \<exists>st''. copy_assign T st this rhs = Throws element_exception st''
             else copy_assign T st this rhs
                    = Returns (st(this := Vector_of (elements (st rhs))
                                            (Capacity (st this) - Size (st rhs)))) ()))"
proof -
  obtain xs k where a: "st this = Vector_of xs k" using wfa by (rule wf_VectorE)
  obtain ys j where b: "st rhs = Vector_of ys j" using wfb by (rule wf_VectorE)
  have tk: "take (min (length xs) (length ys)) ys = take (length xs) ys"
    by (simp add: min_def)
  have id: "st(this := Vector_of xs k) = st" using a by (metis fun_upd_triv)
  have grow: ?thesis if "length xs + k < length ys"
    using that ne id copy_assign_body_grow [OF that, of T j]
    by (auto simp: copy_assign_def a b Size_def split: if_splits)
  have reuse: ?thesis if "length ys \<le> length xs + k"
    using that ne copy_assign_body_reuse [OF that, of T j]
    by (auto simp: copy_assign_def a b Size_def tk split: if_splits)
  show ?thesis using grow reuse by (cases "length xs + k < length ys") auto
qed

text \<open>
  The theorem on three stores: \<open>b\<close> larger than the capacity of \<open>a\<close>, \<open>b\<close> smaller than
  \<open>a\<close>, and \<open>b\<close> larger than \<open>a\<close> within its capacity.
\<close>

theorem copy_assignment_witness:
  "wf_Vector (Vector_of [1 :: nat] 1) \<and> wf_Vector (Vector_of [7, 8, 9 :: nat] 0) \<and> (0 :: nat) \<noteq> 1
   \<and> copy_assign int_like ((\<lambda>c. Vector_default)(0 := Vector_of [1] 1, 1 := Vector_of [7, 8, 9] 0)) 0 1
       = Returns ((\<lambda>c. Vector_default)(0 := Vector_of [7, 8, 9] 0, 1 := Vector_of [7, 8, 9] 0)) ()
   \<and> copy_assign int_like ((\<lambda>c. Vector_default)(0 := Vector_of [7, 8, 9] 0, 1 := Vector_of [1] 1)) 0 1
       = Returns ((\<lambda>c. Vector_default)(0 := Vector_of [1] 2, 1 := Vector_of [1] 1)) ()
   \<and> copy_assign int_like ((\<lambda>c. Vector_default)(0 := Vector_of [1] 3, 1 := Vector_of [7, 8, 9] 0)) 0 1
       = Returns ((\<lambda>c. Vector_default)(0 := Vector_of [7, 8, 9] 1, 1 := Vector_of [7, 8, 9] 0)) ()"
proof -
  let ?s1 = "(\<lambda>c. Vector_default)(0 := Vector_of [1 :: nat] 1, 1 := Vector_of [7, 8, 9] 0)"
  let ?s2 = "(\<lambda>c. Vector_default)(0 := Vector_of [7, 8, 9 :: nat] 0, 1 := Vector_of [1] 1)"
  let ?s3 = "(\<lambda>c. Vector_default)(0 := Vector_of [1 :: nat] 3, 1 := Vector_of [7, 8, 9] 0)"
  have ne: "(0 :: nat) \<noteq> 1" by simp
  have wf: "wf_Vector (?s1 0)" "wf_Vector (?s1 1)" "wf_Vector (?s2 0)" "wf_Vector (?s2 1)"
    "wf_Vector (?s3 0)" "wf_Vector (?s3 1)"
    by simp_all
  have 1: "copy_assign int_like ?s1 0 1
           = Returns ((\<lambda>c. Vector_default)(0 := Vector_of [7, 8, 9] 0, 1 := Vector_of [7, 8, 9] 0)) ()"
    using copy_assignment [where st = "?s1" and this = 0 and rhs = 1 and T = int_like] wf ne
    by (simp add: Size_def int_like_def fun_upd_twist numeral_2_eq_2 numeral_3_eq_3)
  have 2: "copy_assign int_like ?s2 0 1
           = Returns ((\<lambda>c. Vector_default)(0 := Vector_of [1] 2, 1 := Vector_of [1] 1)) ()"
    using copy_assignment [where st = "?s2" and this = 0 and rhs = 1 and T = int_like] wf ne
    by (simp add: Size_def int_like_def fun_upd_twist numeral_2_eq_2 numeral_3_eq_3)
  have 3: "copy_assign int_like ?s3 0 1
           = Returns ((\<lambda>c. Vector_default)(0 := Vector_of [7, 8, 9] 1, 1 := Vector_of [7, 8, 9] 0)) ()"
    using copy_assignment [where st = "?s3" and this = 0 and rhs = 1 and T = int_like] wf ne
    by (simp add: Size_def int_like_def fun_upd_twist numeral_2_eq_2 numeral_3_eq_3)
  show ?thesis using 1 2 3 by simp
qed

text \<open>
  C4.  A transfer of the live objects \<open>xs\<close> of a source range into a destination range of
  raw slots.  If the move constructor of \<open>T\<close> cannot throw, or \<open>T\<close> is not copyable,
  \<open>SafeMove\<close> moves: when no move throws, the destination holds \<open>xs\<close> and the sources are
  destroyed.  Otherwise it copies: when no copy throws, the destination holds \<open>xs\<close> and
  the sources are destroyed; when a copy throws, the exception leaves the source block
  exactly as it was (and the destination range raw again).  The last conjunct is the same
  fact for arbitrary blocks: a transfer by copy that throws has not touched the source.
\<close>

theorem SafeMove_policy:
  "SafeMove T (spre @ map Some xs @ spost) (length spre) (length xs)
       (dpre @ replicate (length xs) None @ dpost) (length dpre)
     = (if is_nothrow_move_constructible_v T \<or> \<not> is_copy_constructible_v T then
          (if \<exists>x\<in>set xs. move_throws T x
           then Throws element_exception
                  (spre @ map Some (moved_prefix T xs) @ spost,
                   dpre @ replicate (length xs) None @ dpost)
           else Returns (spre @ replicate (length xs) None @ spost,
                         dpre @ map Some xs @ dpost) ())
        else
          (if \<exists>x\<in>set xs. copy_ctor_throws T x
           then Throws element_exception
                  (spre @ map Some xs @ spost, dpre @ replicate (length xs) None @ dpost)
           else Returns (spre @ replicate (length xs) None @ spost,
                         dpre @ map Some xs @ dpost) ()))
   \<and> (\<not> (is_nothrow_move_constructible_v T \<or> \<not> is_copy_constructible_v T)
        \<and> SafeMove T src first n dst d_first = Throws e (src', dst') \<longrightarrow> src' = src)"
proof -
  have "\<not> (is_nothrow_move_constructible_v T \<or> \<not> is_copy_constructible_v T)
        \<and> SafeMove T src first n dst d_first = Throws e (src', dst') \<longrightarrow> src' = src"
    by (auto simp: SafeMove_def split: outcome.splits option.splits)
  then show ?thesis using SafeMove_append [of T spre xs spost dpre dpost] by simp
qed

text \<open>
  The theorem on three runs: a transfer by copy that succeeds, one whose second copy
  throws, and a transfer by move.
\<close>

theorem SafeMove_policy_witness:
  "SafeMove throwing_copy [Some 1, Some 2] 0 2 [None, None, Some 3] 0
     = Returns ([None, None], [Some 1, Some 2, Some 3]) ()
   \<and> SafeMove throwing_copy [Some 1, Some 13] 0 2 [None, None, Some 3] 0
     = Throws element_exception ([Some 1, Some 13], [None, None, Some 3])
   \<and> SafeMove int_like [Some 1, Some 13] 0 2 [None, None, Some 3] 0
     = Returns ([None, None], [Some 1, Some 13, Some 3]) ()"
  using SafeMove_policy [of throwing_copy "[]" "[1, 2]" "[]" "[]" "[Some 3]"]
    SafeMove_policy [of throwing_copy "[]" "[1, 13]" "[]" "[]" "[Some 3]"]
    SafeMove_policy [of int_like "[]" "[1, 13]" "[]" "[]" "[Some 3]"]
  by (simp add: throwing_copy_def int_like_def move_throws_def numeral_2_eq_2)

text \<open>
  C5.  Let the vector be well formed.  When \<open>size = capacity\<close>, an \<open>EmplaceBack\<close> that returns
  leaves the capacity \<open>max(1, size * 2)\<close>: 1 from 0, and at least twice the old capacity; and
  it does return, with a reference to index \<open>size\<close> and the new element after the former
  ones, when the allocation and the transfer of the elements do not throw.  Whether it
  returns or throws, the capacity is not reduced.  When \<open>size < capacity\<close>, it returns, the
  element is constructed in slot \<open>size\<close> of the same block and the capacity is unchanged.
  The same four statements hold for \<open>PushBack(const T&)\<close> and for \<open>PushBack(T&&)\<close>, which
  return under the same conditions when the copy, respectively the move, of the value
  does not throw.
\<close>

theorem EmplaceBack_capacity:
  assumes wf: "wf_Vector v"
  shows "(Size v = Capacity v \<and> EmplaceBack T v args = Returns v' r \<longrightarrow>
            Capacity v' = max 1 (Size v * 2) \<and> (Capacity v = 0 \<longrightarrow> Capacity v' = 1)
            \<and> 2 * Capacity v \<le> Capacity v')
       \<and> (Size v = Capacity v \<and> \<not> operator_new_throws T (max 1 (Size v * 2))
            \<and> \<not> transfer_throws T (elements v) \<longrightarrow>
            (\<exists>v''. EmplaceBack T v (Some x) = Returns v'' (Size v)
                  \<and> elements v'' = elements v @ [x]))
       \<and> (EmplaceBack T v args = Returns v' r \<or> EmplaceBack T v args = Throws e v' \<longrightarrow>
            Capacity v \<le> Capacity v')
       \<and> (Size v < Capacity v \<longrightarrow>
            (\<exists>v''. EmplaceBack T v (Some x) = Returns v'' (Size v)
                  \<and> buffer_m (data_m v'') = (buffer_m (data_m v))[Size v := Some x]
                  \<and> elements v'' = elements v @ [x]
                  \<and> Capacity v'' = Capacity v \<and> Size v'' = Size v + 1))
       \<and> (Size v = Capacity v \<and> PushBack_copy T v val = Returns v' r \<longrightarrow>
            Capacity v' = max 1 (Size v * 2) \<and> (Capacity v = 0 \<longrightarrow> Capacity v' = 1)
            \<and> 2 * Capacity v \<le> Capacity v')
       \<and> (Size v = Capacity v \<and> \<not> operator_new_throws T (max 1 (Size v * 2))
            \<and> \<not> transfer_throws T (elements v) \<and> \<not> copy_ctor_throws T val \<longrightarrow>
            (\<exists>v''. PushBack_copy T v val = Returns v'' (Size v)
                  \<and> elements v'' = elements v @ [val]))
       \<and> (PushBack_copy T v val = Returns v' r \<or> PushBack_copy T v val = Throws e v' \<longrightarrow>
            Capacity v \<le> Capacity v')
       \<and> (Size v < Capacity v \<and> \<not> copy_ctor_throws T val \<longrightarrow>
            (\<exists>v''. PushBack_copy T v val = Returns v'' (Size v)
                  \<and> buffer_m (data_m v'') = (buffer_m (data_m v))[Size v := Some val]
                  \<and> elements v'' = elements v @ [val]
                  \<and> Capacity v'' = Capacity v \<and> Size v'' = Size v + 1))
       \<and> (Size v = Capacity v \<and> PushBack_move T v val = Returns v' r \<longrightarrow>
            Capacity v' = max 1 (Size v * 2) \<and> (Capacity v = 0 \<longrightarrow> Capacity v' = 1)
            \<and> 2 * Capacity v \<le> Capacity v')
       \<and> (Size v = Capacity v \<and> \<not> operator_new_throws T (max 1 (Size v * 2))
            \<and> \<not> transfer_throws T (elements v) \<and> \<not> move_throws T val \<longrightarrow>
            (\<exists>v''. PushBack_move T v val = Returns v'' (Size v)
                  \<and> elements v'' = elements v @ [val]))
       \<and> (PushBack_move T v val = Returns v' r \<or> PushBack_move T v val = Throws e v' \<longrightarrow>
            Capacity v \<le> Capacity v')
       \<and> (Size v < Capacity v \<and> \<not> move_throws T val \<longrightarrow>
            (\<exists>v''. PushBack_move T v val = Returns v'' (Size v)
                  \<and> buffer_m (data_m v'') = (buffer_m (data_m v))[Size v := Some val]
                  \<and> elements v'' = elements v @ [val]
                  \<and> Capacity v'' = Capacity v \<and> Size v'' = Size v + 1))"
proof -
  note emplace = EmplaceBack_capacity_args [OF wf, of T args v' r x e]
  have copy: "PushBack_copy T v val = EmplaceBack T v (copy_construct T val)"
    "\<not> copy_ctor_throws T val \<Longrightarrow> PushBack_copy T v val = EmplaceBack T v (Some val)"
    by (simp_all add: PushBack_copy_def copy_construct_def)
  have move: "PushBack_move T v val = EmplaceBack T v (move_construct T val)"
    "\<not> move_throws T val \<Longrightarrow> PushBack_move T v val = EmplaceBack T v (Some val)"
    by (simp_all add: PushBack_move_def move_construct_def)
  note c = EmplaceBack_capacity_args [OF wf, of T "copy_construct T val" v' r val e,
      folded copy(1)]
  note m = EmplaceBack_capacity_args [OF wf, of T "move_construct T val" v' r val e,
      folded move(1)]
  have c1: "Size v = Capacity v \<and> PushBack_copy T v val = Returns v' r \<longrightarrow>
            Capacity v' = max 1 (Size v * 2) \<and> (Capacity v = 0 \<longrightarrow> Capacity v' = 1)
            \<and> 2 * Capacity v \<le> Capacity v'"
    and c3: "PushBack_copy T v val = Returns v' r \<or> PushBack_copy T v val = Throws e v' \<longrightarrow>
            Capacity v \<le> Capacity v'"
    using c by blast+
  have m1: "Size v = Capacity v \<and> PushBack_move T v val = Returns v' r \<longrightarrow>
            Capacity v' = max 1 (Size v * 2) \<and> (Capacity v = 0 \<longrightarrow> Capacity v' = 1)
            \<and> 2 * Capacity v \<le> Capacity v'"
    and m3: "PushBack_move T v val = Returns v' r \<or> PushBack_move T v val = Throws e v' \<longrightarrow>
            Capacity v \<le> Capacity v'"
    using m by blast+
  have c2: "Size v = Capacity v \<and> \<not> operator_new_throws T (max 1 (Size v * 2))
            \<and> \<not> transfer_throws T (elements v) \<and> \<not> copy_ctor_throws T val \<longrightarrow>
            (\<exists>v''. PushBack_copy T v val = Returns v'' (Size v)
                  \<and> elements v'' = elements v @ [val])"
    and c4: "Size v < Capacity v \<and> \<not> copy_ctor_throws T val \<longrightarrow>
            (\<exists>v''. PushBack_copy T v val = Returns v'' (Size v)
                  \<and> buffer_m (data_m v'') = (buffer_m (data_m v))[Size v := Some val]
                  \<and> elements v'' = elements v @ [val]
                  \<and> Capacity v'' = Capacity v \<and> Size v'' = Size v + 1)"
    using EmplaceBack_capacity_args [OF wf, of T args v' r val e] copy(2) by auto
  have m2: "Size v = Capacity v \<and> \<not> operator_new_throws T (max 1 (Size v * 2))
            \<and> \<not> transfer_throws T (elements v) \<and> \<not> move_throws T val \<longrightarrow>
            (\<exists>v''. PushBack_move T v val = Returns v'' (Size v)
                  \<and> elements v'' = elements v @ [val])"
    and m4: "Size v < Capacity v \<and> \<not> move_throws T val \<longrightarrow>
            (\<exists>v''. PushBack_move T v val = Returns v'' (Size v)
                  \<and> buffer_m (data_m v'') = (buffer_m (data_m v))[Size v := Some val]
                  \<and> elements v'' = elements v @ [val]
                  \<and> Capacity v'' = Capacity v \<and> Size v'' = Size v + 1)"
    using EmplaceBack_capacity_args [OF wf, of T args v' r val e] move(2) by auto
  show ?thesis
    using emplace c1 c2 c3 c4 m1 m2 m3 m4 by blast
qed

text \<open>
  The theorem at the full vector \<open>[1, 2]\<close>, appending 3 by \<open>EmplaceBack\<close> and by both
  overloads of \<open>PushBack\<close>: capacity 2 becomes 4; and at \<open>[1, 2]\<close> with one free slot.
\<close>

theorem EmplaceBack_capacity_witness:
  "wf_Vector (Vector_of [1 :: nat, 2] 0)
   \<and> Size (Vector_of [1 :: nat, 2] 0) = Capacity (Vector_of [1 :: nat, 2] 0)
   \<and> EmplaceBack int_like (Vector_of [1, 2] 0) (Some 3) = Returns (Vector_of [1, 2, 3] 1) 2
   \<and> PushBack_copy int_like (Vector_of [1, 2] 0) 3 = Returns (Vector_of [1, 2, 3] 1) 2
   \<and> PushBack_move int_like (Vector_of [1, 2] 0) 3 = Returns (Vector_of [1, 2, 3] 1) 2
   \<and> Capacity (Vector_of [1 :: nat, 2, 3] 1) = 4
   \<and> wf_Vector (Vector_of [1 :: nat, 2] 1)
   \<and> Size (Vector_of [1 :: nat, 2] 1) < Capacity (Vector_of [1 :: nat, 2] 1)
   \<and> PushBack_copy int_like_no_memory (Vector_of [1, 2] 1) 3 = Returns (Vector_of [1, 2, 3] 0) 2
   \<and> Capacity (Vector_of [1 :: nat, 2] 1) \<le> Capacity (Vector_of [1 :: nat, 2, 3] 0)"
proof -
  have wf: "wf_Vector (Vector_of [1 :: nat, 2] 0)" "wf_Vector (Vector_of [1 :: nat, 2] 1)"
    by simp_all
  have full: "Size (Vector_of [1 :: nat, 2] 0) = Capacity (Vector_of [1 :: nat, 2] 0)"
    and room: "Size (Vector_of [1 :: nat, 2] 1) < Capacity (Vector_of [1 :: nat, 2] 1)"
    by (simp_all add: Size_def)
  have run: "EmplaceBack int_like (Vector_of [1, 2] 0) (Some 3) = Returns (Vector_of [1, 2, 3] 1) 2"
    "PushBack_copy int_like (Vector_of [1, 2] 0) 3 = Returns (Vector_of [1, 2, 3] 1) 2"
    "PushBack_move int_like (Vector_of [1, 2] 0) 3 = Returns (Vector_of [1, 2, 3] 1) 2"
    "PushBack_copy int_like_no_memory (Vector_of [1, 2] 1) 3 = Returns (Vector_of [1, 2, 3] 0) 2"
    by code_simp+
  from EmplaceBack_capacity [OF wf(1), where T = int_like and val = 3
      and v' = "Vector_of [1, 2, 3] 1" and r = 2] full run(2)
  have 1: "Capacity (Vector_of [1 :: nat, 2, 3] 1) = max 1 (Size (Vector_of [1 :: nat, 2] 0) * 2)"
    by blast
  from EmplaceBack_capacity [OF wf(2), where T = int_like_no_memory and val = 3
      and v' = "Vector_of [1, 2, 3] 0" and r = 2] run(4)
  have 2: "Capacity (Vector_of [1 :: nat, 2] 1) \<le> Capacity (Vector_of [1 :: nat, 2, 3] 0)"
    by blast
  from 1 have "Capacity (Vector_of [1 :: nat, 2, 3] 1) = 4" by (simp add: Size_def)
  then show ?thesis using wf full room run 2 by blast
qed

text \<open>
  C6.  Let the vector be well formed and \<open>i < size\<close>.  An \<open>Erase\<close> at \<open>begin() + i\<close> that
  returns leaves \<open>size - 1\<close> elements: those before \<open>i\<close> unchanged, those after \<open>i\<close> one
  place to the left (the element formerly at \<open>i + 1\<close> is at \<open>i\<close>); it returns index \<open>i\<close>,
  which is \<open>end()\<close> when the last element was erased; the capacity is unchanged and the
  vector is well formed.  It does return when no move assignment of a later element
  throws.
\<close>

theorem Erase_shifts_left:
  assumes wf: "wf_Vector v" and i: "i < Size v"
  shows "(Erase T v i = Returns v' r \<longrightarrow>
            Size v' = Size v - 1
            \<and> take i (elements v') = take i (elements v)
            \<and> drop i (elements v') = drop (i + 1) (elements v)
            \<and> (i + 1 < Size v \<longrightarrow> elements v' ! i = elements v ! (i + 1))
            \<and> r = i \<and> (i = Size v - 1 \<longrightarrow> r = Size v')
            \<and> Capacity v' = Capacity v \<and> wf_Vector v')
       \<and> ((\<forall>y\<in>set (drop (i + 1) (elements v)). \<not> assign_move_throws T y) \<longrightarrow>
            (\<exists>v''. Erase T v i = Returns v'' i))"
proof -
  obtain xs k where v: "v = Vector_of xs k" using wf by (rule wf_VectorE)
  from i have ilt: "i < length xs" by (simp add: v Size_def)
  define ps where "ps = take i xs"
  define ss where "ss = drop (Suc i) xs"
  have xs: "xs = ps @ xs ! i # ss"
    using ilt by (simp add: ps_def ss_def id_take_nth_drop)
  have lps: "length ps = i" using ilt by (simp add: ps_def)
  have E: "\<And>v' r. Erase T v i = Returns v' r \<longleftrightarrow>
             (\<forall>y\<in>set ss. \<not> assign_move_throws T y) \<and> v' = Vector_of (ps @ ss) (Suc k) \<and> r = i"
    using Erase_Vector_of [of T ps "xs ! i" ss k] xs lps v by simp
  have e: "elements v = ps @ xs ! i # ss" using xs v by simp
  have nth: "ss \<noteq> [] \<Longrightarrow> (ps @ ss) ! i = (ps @ xs ! i # ss) ! (i + 1)"
    using lps by (simp add: nth_append)
  have sz: "Size v = Suc (length ps + length ss)" using xs v by (simp add: Size_def) (metis length_append length_Cons add_Suc_right)
  have d: "drop (Suc i) (ps @ xs ! i # ss) = ss" using lps by simp
  have "Capacity v = length xs + k" by (simp add: v)
  then have cap: "Capacity v = Suc (length ps + length ss + k)"
    using xs by (metis add_Suc_right add_Suc length_Cons length_append)
  show ?thesis
    unfolding E e using lps nth sz d cap by (auto simp: Size_def)
qed

text \<open>The theorem on \<open>[1, 2, 3]\<close> with one free slot, erasing index 1.\<close>

theorem Erase_shifts_left_witness:
  "wf_Vector (Vector_of [1, 2, 3 :: nat] 1) \<and> 1 < Size (Vector_of [1, 2, 3 :: nat] 1)
   \<and> Erase int_like (Vector_of [1, 2, 3] 1) 1 = Returns (Vector_of [1, 3] 2) 1
   \<and> drop 1 (elements (Vector_of [1, 3 :: nat] 2)) = drop (1 + 1) (elements (Vector_of [1, 2, 3 :: nat] 1))"
proof -
  have wf: "wf_Vector (Vector_of [1, 2, 3 :: nat] 1)" by simp
  have i: "1 < Size (Vector_of [1, 2, 3 :: nat] 1)" by (simp add: Size_def)
  have run: "Erase int_like (Vector_of [1, 2, 3] 1) 1 = Returns (Vector_of [1, 3] 2) 1"
    by code_simp
  from Erase_shifts_left [OF wf i, of int_like "Vector_of [1, 3] 2" 1] run
  have "drop 1 (elements (Vector_of [1, 3 :: nat] 2))
        = drop (1 + 1) (elements (Vector_of [1, 2, 3 :: nat] 1))"
    by blast
  then show ?thesis using wf i run by blast
qed

text \<open>
  C7.  \<open>size \<le> capacity\<close> after every public operation, on return and also when the
  operation leaves by an exception: the constructors establish it, and assignment,
  \<open>Swap\<close>, \<open>Reserve\<close>, \<open>Resize\<close>, \<open>EmplaceBack\<close>, \<open>PushBack\<close>, \<open>PopBack\<close>, \<open>Emplace\<close>,
  \<open>Insert\<close> and \<open>Erase\<close> preserve it, for the object they are called on and for every
  object of the store.  Only \<open>size \<le> capacity\<close> is assumed of the objects before the call.
\<close>

theorem size_le_capacity_always:
  "size_le_capacity (Vector_default :: 'a Vector)
   \<and> (Vector_sized T n = Returns u0 v' \<longrightarrow> size_le_capacity v')
   \<and> (Vector_copy T v = Returns u0 v' \<longrightarrow> size_le_capacity v')
   \<and> (size_le_capacity v \<longrightarrow>
        size_le_capacity (fst (Vector_move v)) \<and> size_le_capacity (snd (Vector_move v)))
   \<and> ((\<forall>c. size_le_capacity (st c)) \<longrightarrow>
        (copy_assign T st a b = Returns st' u \<or> copy_assign T st a b = Throws e st' \<longrightarrow>
           (\<forall>c. size_le_capacity (st' c)))
        \<and> (\<forall>c. size_le_capacity (move_assign st a b c))
        \<and> (\<forall>c. size_le_capacity (Swap st a b c)))
   \<and> (size_le_capacity v \<longrightarrow>
        (Reserve T v n = Returns v' u \<or> Reserve T v n = Throws e v' \<longrightarrow> size_le_capacity v')
        \<and> (Resize T v n = Returns v' u \<or> Resize T v n = Throws e v' \<longrightarrow> size_le_capacity v')
        \<and> (EmplaceBack T v args = Returns v' r \<or> EmplaceBack T v args = Throws e v' \<longrightarrow>
             size_le_capacity v')
        \<and> (PushBack_copy T v val = Returns v' r \<or> PushBack_copy T v val = Throws e v' \<longrightarrow>
             size_le_capacity v')
        \<and> (PushBack_move T v val = Returns v' r \<or> PushBack_move T v val = Throws e v' \<longrightarrow>
             size_le_capacity v')
        \<and> (PopBack v = Returns v' u \<or> PopBack v = Throws e v' \<longrightarrow> size_le_capacity v')
        \<and> (Emplace T v i args = Returns v' r \<or> Emplace T v i args = Throws e v' \<longrightarrow>
             size_le_capacity v')
        \<and> (Insert_copy T v i val = Returns v' r \<or> Insert_copy T v i val = Throws e v' \<longrightarrow>
             size_le_capacity v')
        \<and> (Insert_move T v i val = Returns v' r \<or> Insert_move T v i val = Throws e v' \<longrightarrow>
             size_le_capacity v')
        \<and> (Erase T v i = Returns v' r \<or> Erase T v i = Throws e v' \<longrightarrow> size_le_capacity v'))"
proof -
  have ctors: "size_le_capacity (Vector_default :: 'a Vector)"
    "Vector_sized T n = Returns u0 v' \<longrightarrow> size_le_capacity v'"
    "Vector_copy T v = Returns u0 v' \<longrightarrow> size_le_capacity v'"
    "size_le_capacity v \<longrightarrow>
       size_le_capacity (fst (Vector_move v)) \<and> size_le_capacity (snd (Vector_move v))"
    using slc_default slc_sized [of T n u0 v'] slc_copy [of T v u0 v'] slc_move [of v]
    by blast+
  have store: "(\<forall>c. size_le_capacity (st c)) \<longrightarrow>
        (copy_assign T st a b = Returns st' u \<or> copy_assign T st a b = Throws e st' \<longrightarrow>
           (\<forall>c. size_le_capacity (st' c)))
        \<and> (\<forall>c. size_le_capacity (move_assign st a b c))
        \<and> (\<forall>c. size_le_capacity (Swap st a b c))"
    using slc_copy_assign [of st T a b st' u e] slc_move_assign [of st a b] slc_Swap [of st a b]
    by blast
  have one: "Reserve T v n = Returns v' u \<or> Reserve T v n = Throws e v' \<longrightarrow> size_le_capacity v'"
    "Resize T v n = Returns v' u \<or> Resize T v n = Throws e v' \<longrightarrow> size_le_capacity v'"
    "EmplaceBack T v args = Returns v' r \<or> EmplaceBack T v args = Throws e v' \<longrightarrow>
       size_le_capacity v'"
    "PushBack_copy T v val = Returns v' r \<or> PushBack_copy T v val = Throws e v' \<longrightarrow>
       size_le_capacity v'"
    "PushBack_move T v val = Returns v' r \<or> PushBack_move T v val = Throws e v' \<longrightarrow>
       size_le_capacity v'"
    "PopBack v = Returns v' u \<or> PopBack v = Throws e v' \<longrightarrow> size_le_capacity v'"
    "Emplace T v i args = Returns v' r \<or> Emplace T v i args = Throws e v' \<longrightarrow>
       size_le_capacity v'"
    "Insert_copy T v i val = Returns v' r \<or> Insert_copy T v i val = Throws e v' \<longrightarrow>
       size_le_capacity v'"
    "Insert_move T v i val = Returns v' r \<or> Insert_move T v i val = Throws e v' \<longrightarrow>
       size_le_capacity v'"
    "Erase T v i = Returns v' r \<or> Erase T v i = Throws e v' \<longrightarrow> size_le_capacity v'"
    if slc: "size_le_capacity v"
    using slc_Reserve [OF slc, of T n v' u e] slc_Resize [OF slc, of T n v' u e]
      slc_EmplaceBack [OF slc, of T args v' r e]
      slc_EmplaceBack [OF slc, of T "copy_construct T val" v' r e]
      slc_EmplaceBack [OF slc, of T "move_construct T val" v' r e]
      slc_PopBack [OF slc, of v' u e] slc_Emplace [OF slc, of T i args v' r e]
      slc_Emplace [OF slc, of T i "copy_construct T val" v' r e]
      slc_Emplace [OF slc, of T i "move_construct T val" v' r e]
      slc_Erase [OF slc, of T i v' r e]
    unfolding PushBack_copy_def PushBack_move_def Insert_copy_def Insert_move_def
    by blast+
  show ?thesis
    using ctors store one by blast
qed

text \<open>
  The theorem on \<open>[1, 2, 3]\<close> with no free slot: resized to 5 elements, and after an
  insertion by copy at index 1 whose transfer of the elements throws.
\<close>

theorem size_le_capacity_always_witness:
  "size_le_capacity (Vector_of [1, 2, 3 :: nat] 0)
   \<and> Resize int_like (Vector_of [1, 2, 3] 0) 5 = Returns (Vector_of [1, 2, 3, 0, 0] 0) ()
   \<and> size_le_capacity (Vector_of [1, 2, 3, 0, 0 :: nat] 0)
   \<and> Insert_copy throwing_copy (Vector_of [1, 13, 3] 0) 1 7
       = Throws element_exception
           \<lparr>data_m = \<lparr>buffer_m = [None, Some 13, Some 3], capacity_m = 3\<rparr>, size_m = 3\<rparr>
   \<and> size_le_capacity
        \<lparr>data_m = \<lparr>buffer_m = [None, Some 13, Some (3 :: nat)], capacity_m = 3\<rparr>, size_m = 3\<rparr>"
proof -
  have slc: "size_le_capacity (Vector_of [1, 2, 3 :: nat] 0)"
    "size_le_capacity (Vector_of [1, 13, 3 :: nat] 0)"
    by (simp_all add: size_le_capacity_def Size_def)
  have run1: "Resize int_like (Vector_of [1, 2, 3] 0) 5 = Returns (Vector_of [1, 2, 3, 0, 0] 0) ()"
    by code_simp
  have run2: "Insert_copy throwing_copy (Vector_of [1, 13, 3] 0) 1 7
       = Throws element_exception
           \<lparr>data_m = \<lparr>buffer_m = [None, Some 13, Some 3], capacity_m = 3\<rparr>, size_m = 3\<rparr>"
    by code_simp
  from size_le_capacity_always [where T = int_like and v = "Vector_of [1, 2, 3 :: nat] 0"
      and n = 5 and v' = "Vector_of [1, 2, 3, 0, 0] 0" and u = "()"] slc(1) run1
  have 1: "size_le_capacity (Vector_of [1, 2, 3, 0, 0 :: nat] 0)" by blast
  from size_le_capacity_always [where T = throwing_copy and v = "Vector_of [1, 13, 3 :: nat] 0"
      and i = 1 and val = 7 and e = element_exception
      and v' = "\<lparr>data_m = \<lparr>buffer_m = [None, Some 13, Some 3], capacity_m = 3\<rparr>, size_m = 3\<rparr>"]
    slc(2) run2
  have 2: "size_le_capacity
        \<lparr>data_m = \<lparr>buffer_m = [None, Some 13, Some (3 :: nat)], capacity_m = 3\<rparr>, size_m = 3\<rparr>"
    by blast
  show ?thesis using slc run1 run2 1 2 by blast
qed

text \<open>
  C8.  \<open>Swap\<close> takes no element type and no allocator, and its result is a store, not an
  outcome: it constructs, destroys and allocates nothing and cannot throw.  After
  \<open>a.Swap(b)\<close> object \<open>a\<close> is what \<open>b\<close> was and \<open>b\<close> what \<open>a\<close> was, block, capacity and size
  (so every slot, live or raw, is as it was, in the other vector), and every other object
  is unchanged.
\<close>

theorem Swap_exchanges:
  "Swap st a b a = st b \<and> Swap st a b b = st a
   \<and> (\<forall>c. c \<noteq> a \<and> c \<noteq> b \<longrightarrow> Swap st a b c = st c)
   \<and> Size (Swap st a b a) = Size (st b) \<and> Size (Swap st a b b) = Size (st a)
   \<and> Capacity (Swap st a b a) = Capacity (st b) \<and> Capacity (Swap st a b b) = Capacity (st a)
   \<and> elements (Swap st a b a) = elements (st b) \<and> elements (Swap st a b b) = elements (st a)
   \<and> buffer_m (data_m (Swap st a b a)) = buffer_m (data_m (st b))
   \<and> buffer_m (data_m (Swap st a b b)) = buffer_m (data_m (st a))"
proof -
  have "Swap st a b a = st b" "Swap st a b b = st a"
    "\<forall>c. c \<noteq> a \<and> c \<noteq> b \<longrightarrow> Swap st a b c = st c"
    by (simp_all add: Swap_def Swap_values_def RawMemory_Swap_def)
  then show ?thesis by simp
qed

text \<open>The theorem on a store with \<open>[1, 2]\<close> at address 0 and \<open>[7]\<close> at address 1.\<close>

theorem Swap_exchanges_witness:
  "Swap ((\<lambda>a. Vector_default)(0 := Vector_of [1, 2 :: nat] 1, 1 := Vector_of [7] 0)) 0 1 0
     = Vector_of [7] 0
   \<and> Swap ((\<lambda>a. Vector_default)(0 := Vector_of [1, 2 :: nat] 1, 1 := Vector_of [7] 0)) 0 1 1
     = Vector_of [1, 2] 1"
  using Swap_exchanges [of "(\<lambda>a. Vector_default)(0 := Vector_of [1, 2 :: nat] 1, 1 := Vector_of [7] 0)"
          0 1]
  by simp

text \<open>
  C9.  \<open>PopBack\<close> on an empty vector and \<open>operator[]\<close> with \<open>index \<ge> size\<close> fail their
  assertion, whatever the vector.  On a well-formed vector with \<open>size > 0\<close>, \<open>PopBack\<close>
  returns: the last live slot holds no object any more, every other slot is as it was,
  the size is one less, the elements are the former ones without the last, and the block
  and its capacity are the same.  On a well-formed vector with \<open>index < size\<close>,
  \<open>operator[]\<close> returns the reference to slot \<open>index\<close>, which holds a live object.
\<close>

theorem PopBack_subscript_preconditions:
  "(Size v = 0 \<longrightarrow> PopBack v = Aborts assertion_failed)
   \<and> (Size v \<le> index \<longrightarrow> subscript v index = Aborts assertion_failed)
   \<and> (wf_Vector v \<and> 0 < Size v \<longrightarrow>
        (\<exists>v'. PopBack v = Returns v' ()
            \<and> buffer_m (data_m v') = (buffer_m (data_m v))[Size v - 1 := None]
            \<and> Size v' = Size v - 1
            \<and> elements v' = butlast (elements v)
            \<and> Capacity v' = Capacity v \<and> wf_Vector v'))
   \<and> (wf_Vector v \<and> index < Size v \<longrightarrow>
        subscript v index = Returns v index \<and> live (buffer_m (data_m v)) index)"
proof -
  have a: "Size v = 0 \<longrightarrow> PopBack v = Aborts assertion_failed"
    by (simp add: PopBack_def Size_def)
  have b: "Size v \<le> index \<longrightarrow> subscript v index = Aborts assertion_failed"
    by (simp add: subscript_def Size_def)
  have c: "\<exists>v'. PopBack v = Returns v' ()
            \<and> buffer_m (data_m v') = (buffer_m (data_m v))[Size v - 1 := None]
            \<and> Size v' = Size v - 1
            \<and> elements v' = butlast (elements v)
            \<and> Capacity v' = Capacity v \<and> wf_Vector v'"
    if wf: "wf_Vector v" and pos: "0 < Size v"
  proof -
    obtain xs k where v: "v = Vector_of xs k" using wf by (rule wf_VectorE)
    from pos have "xs \<noteq> []" by (simp add: v Size_def)
    then obtain ys y where xs: "xs = ys @ [y]" by (metis rev_exhaust)
    have "PopBack (Vector_of (ys @ [y]) k) = Returns (Vector_of ys (Suc k)) ()"
      by (simp add: PopBack_def Vector_of_def plus_ok_def destroy_at_def with_buffer_def)
    then show ?thesis
      unfolding v xs by (simp add: Size_def)
  qed
  have d: "subscript v index = Returns v index \<and> live (buffer_m (data_m v)) index"
    if wf: "wf_Vector v" and lt: "index < Size v"
  proof -
    obtain xs k where v: "v = Vector_of xs k" using wf by (rule wf_VectorE)
    from lt have "index < length xs" by (simp add: v Size_def)
    then show ?thesis
      unfolding v
      by (simp add: subscript_def index_ok_def live_def nth_append Vector_of_def)
  qed
  show ?thesis using a b c d by blast
qed

text \<open>
  The theorem on the empty vector, and on \<open>[1, 2]\<close> with one free slot.
\<close>

theorem PopBack_subscript_preconditions_witness:
  "Size (Vector_default :: nat Vector) = 0
   \<and> PopBack (Vector_default :: nat Vector) = Aborts assertion_failed
   \<and> Size (Vector_of [1, 2 :: nat] 1) \<le> 2
   \<and> subscript (Vector_of [1, 2 :: nat] 1) 2 = Aborts assertion_failed
   \<and> wf_Vector (Vector_of [1, 2 :: nat] 1) \<and> 0 < Size (Vector_of [1, 2 :: nat] 1)
   \<and> PopBack (Vector_of [1, 2 :: nat] 1) = Returns (Vector_of [1] 2) ()
   \<and> subscript (Vector_of [1, 2 :: nat] 1) 1 = Returns (Vector_of [1, 2] 1) 1"
proof -
  have e: "Size (Vector_default :: nat Vector) = 0"
    by (simp add: Size_def Vector_default_def)
  have s: "Size (Vector_of [1, 2 :: nat] 1) \<le> 2" "0 < Size (Vector_of [1, 2 :: nat] 1)"
    "1 < Size (Vector_of [1, 2 :: nat] 1)"
    by (simp_all add: Size_def)
  have wf: "wf_Vector (Vector_of [1, 2 :: nat] 1)" by simp
  have run: "PopBack (Vector_of [1, 2 :: nat] 1) = Returns (Vector_of [1] 2) ()"
    by code_simp
  show ?thesis
    using PopBack_subscript_preconditions [of "Vector_default :: nat Vector" 0]
      PopBack_subscript_preconditions [of "Vector_of [1, 2 :: nat] 1" 2]
      PopBack_subscript_preconditions [of "Vector_of [1, 2 :: nat] 1" 1]
      e s wf run
    by blast
qed

text \<open>
  C10.  Self-assignment: copy assignment and move assignment of an object to itself
  return with every object of the store, this one included, as it was.
\<close>

theorem self_assignment_identity:
  "copy_assign T st this this = Returns st () \<and> move_assign st this this = st"
  by (simp add: copy_assign_def move_assign_def)

text \<open>The theorem on a store that holds \<open>[1, 2]\<close> at every address.\<close>

theorem self_assignment_identity_witness:
  "copy_assign int_like (\<lambda>a. Vector_of [1, 2] 0) 0 0 = Returns (\<lambda>a. Vector_of [1, 2] 0) ()
   \<and> move_assign (\<lambda>a. Vector_of [1, 2 :: nat] 0) 0 0 = (\<lambda>a. Vector_of [1, 2] 0)"
  using self_assignment_identity [of int_like "\<lambda>a. Vector_of [1, 2] 0" 0] by simp

end
